theory Spec2Isabelle
  imports Complex_Main "HOL-Library.Word"
begin

unbundle bit_operations_syntax

section \<open>Geometry values handed to the rendering backend\<close>

text \<open>
  Modelled from the spec: the value types of the rendering backend (\<^verbatim>\<open>SkRect\<close>,
  \<^verbatim>\<open>SkRRect\<close>, \<^verbatim>\<open>SkMatrix\<close>, \<^verbatim>\<open>SkClipOp\<close>, \<^verbatim>\<open>SkPaint\<close>, \<^verbatim>\<open>SkBitmap\<close>,
  \<^verbatim>\<open>SaveLayerRec\<close>) are declared outside the sources; each keeps what the engine in
  \<^verbatim>\<open>libs/hwui/SkiaCanvas.cpp\<close> reads or writes. The engine never computes with
  coordinates: it builds rectangles from the four numbers it is given, stores them and
  passes them on. A coordinate (\<^verbatim>\<open>float\<close>, \<^verbatim>\<open>SkScalar\<close>) is therefore carried as an
  opaque number.
\<close>

type_synonym scalar = real

datatype skrect = MakeLTRB (fLeft: scalar) (fTop: scalar) (fRight: scalar) (fBottom: scalar)

datatype skrrect = SkRRect (rect: skrect) (radii: "scalar list")

text \<open>\<^verbatim>\<open>SkRRect::MakeRect\<close>: a rounded rectangle with no corner radius.\<close>

definition MakeRect :: "skrect \<Rightarrow> skrrect" where
  "MakeRect r = SkRRect r []"

text \<open>
  Modelled from the spec: \<^verbatim>\<open>SkPath\<close> belongs to the rendering backend. The engine asks a
  path one question only, \<^verbatim>\<open>isRRect\<close>, so a path carries the answer next to its data.
\<close>

datatype skpath = SkPath (isRRect: "skrrect option") (pathData: "scalar list")

datatype skmatrix = SkMatrix "scalar list"

definition I :: skmatrix where
  "I = SkMatrix [1, 0, 0, 0, 1, 0, 0, 0, 1]"

datatype skclipop =
  kDifference | kIntersect | kUnion | kXOR | kReverseDifference | kReplace

datatype skpaint = SkPaint (paintAlpha: nat)

definition setAlpha :: "nat \<Rightarrow> skpaint \<Rightarrow> skpaint" where
  "setAlpha a p = SkPaint a"

datatype skbitmap = SkBitmap (isNull: bool) (bmWidth: int) (bmHeight: int)

datatype savelayerrec =
  SaveLayerRec (fBounds: "skrect option") (fPaint: "skpaint option") (fSaveLayerFlags: "32 word")

section \<open>The rendering backend\<close>

text \<open>
  Modelled from the spec: the rendering backend (\<^verbatim>\<open>SkCanvas\<close>) is an external
  collaborator, described as an immediate-mode surface with its own save count, total
  transform and clip state, a monolithic save/restore pair, and a visitor hook that
  enumerates the currently active clip operations. Its clip state is kept as the sequence
  of clip operations in effect, each with the total transform under which it was issued.
  A save copies the top frame; a restore reinstalls the frame saved last and does nothing
  at the bottom of the stack. \<^verbatim>\<open>save\<close> and \<^verbatim>\<open>saveLayer\<close> report the save count
  to hand to a later \<^verbatim>\<open>restoreToCount\<close>, that is the count before the save.
\<close>

datatype clipshape = ClipRect skrect | ClipRRect skrrect | ClipPath skpath

record clipelem =
  ce_shape :: clipshape
  ce_op :: skclipop
  ce_aa :: bool
  ce_matrix :: skmatrix

record mcrec =
  fMatrix :: skmatrix
  fClip :: "clipelem list"
  fLayer :: "savelayerrec option"

record skcanvas =
  fDevice :: skbitmap
  fMCRec :: mcrec
  fMCStack :: "mcrec list"

definition sk_new :: "skbitmap \<Rightarrow> skcanvas" where
  "sk_new bitmap =
     \<lparr>fDevice = bitmap, fMCRec = \<lparr>fMatrix = I, fClip = [], fLayer = None\<rparr>, fMCStack = []\<rparr>"

definition sk_getSaveCount :: "skcanvas \<Rightarrow> int" where
  "sk_getSaveCount c = int (length (fMCStack c)) + 1"

definition sk_save :: "skcanvas \<Rightarrow> int \<times> skcanvas" where
  "sk_save c =
     (sk_getSaveCount c,
      c\<lparr>fMCStack := fMCRec c # fMCStack c, fMCRec := (fMCRec c)\<lparr>fLayer := None\<rparr>\<rparr>)"

definition sk_saveLayer :: "savelayerrec \<Rightarrow> skcanvas \<Rightarrow> int \<times> skcanvas" where
  "sk_saveLayer rec c =
     (sk_getSaveCount c,
      c\<lparr>fMCStack := fMCRec c # fMCStack c, fMCRec := (fMCRec c)\<lparr>fLayer := Some rec\<rparr>\<rparr>)"

definition sk_restore :: "skcanvas \<Rightarrow> skcanvas" where
  "sk_restore c =
     (case fMCStack c of
        [] \<Rightarrow> c
      | m # ms \<Rightarrow> c\<lparr>fMCRec := m, fMCStack := ms\<rparr>)"

definition sk_getTotalMatrix :: "skcanvas \<Rightarrow> skmatrix" where
  "sk_getTotalMatrix c = fMatrix (fMCRec c)"

definition sk_setMatrix :: "skmatrix \<Rightarrow> skcanvas \<Rightarrow> skcanvas" where
  "sk_setMatrix m c = c\<lparr>fMCRec := (fMCRec c)\<lparr>fMatrix := m\<rparr>\<rparr>"

definition sk_clip :: "clipshape \<Rightarrow> skclipop \<Rightarrow> bool \<Rightarrow> skcanvas \<Rightarrow> skcanvas" where
  "sk_clip shape op aa c =
     c\<lparr>fMCRec := (fMCRec c)\<lparr>fClip := fClip (fMCRec c) @
        [\<lparr>ce_shape = shape, ce_op = op, ce_aa = aa, ce_matrix = fMatrix (fMCRec c)\<rparr>]\<rparr>\<rparr>"

definition sk_clipRect :: "skrect \<Rightarrow> skclipop \<Rightarrow> bool \<Rightarrow> skcanvas \<Rightarrow> skcanvas" where
  "sk_clipRect r = sk_clip (ClipRect r)"

definition sk_clipRRect :: "skrrect \<Rightarrow> skclipop \<Rightarrow> bool \<Rightarrow> skcanvas \<Rightarrow> skcanvas" where
  "sk_clipRRect rr = sk_clip (ClipRRect rr)"

definition sk_clipPath :: "skpath \<Rightarrow> skclipop \<Rightarrow> bool \<Rightarrow> skcanvas \<Rightarrow> skcanvas" where
  "sk_clipPath p = sk_clip (ClipPath p)"

definition sk_getClip :: "skcanvas \<Rightarrow> clipelem list" where
  "sk_getClip c = fClip (fMCRec c)"

text \<open>
  Modelled from the spec: \<^verbatim>\<open>replayClips\<close> is the backend's visitor hook. It
  enumerates the currently active clip operations, oldest first, and hands each to a
  visitor as a shape, an operator and an anti-alias flag, the arguments of the three
  methods of \<^verbatim>\<open>SkCanvas::ClipVisitor\<close> that the source overrides. Neither the sources
  nor the spec say which shapes the backend hands over for a canvas (as they were issued,
  mapped by their transforms to device coordinates, or merged), so the enumeration
  \<open>activeClips\<close> is a parameter.
\<close>

definition sk_replayClips ::
  "(skcanvas \<Rightarrow> (clipshape \<times> skclipop \<times> bool) list)
     \<Rightarrow> (clipshape \<Rightarrow> skclipop \<Rightarrow> bool \<Rightarrow> 'v \<Rightarrow> 'v) \<Rightarrow> skcanvas \<Rightarrow> 'v \<Rightarrow> 'v" where
  "sk_replayClips activeClips visitor c v =
     fold (\<lambda>(shape, op, aa). visitor shape op aa) (activeClips c) v"

section \<open>The canvas state engine (SkiaCanvas)\<close>

text \<open>
  Modelled from the spec: the flag constants are declared in \<^verbatim>\<open>SaveFlags.h\<close>, which is
  not among the sources. Matrix and Clip are two distinct bits, MatrixClip is their
  union, and the remaining two flags concern layers only.
\<close>

type_synonym Flags = "32 word"

definition Matrix :: Flags where "Matrix = 0x01"
definition Clip :: Flags where "Clip = 0x02"
definition HasAlphaLayer :: Flags where "HasAlphaLayer = 0x04"
definition ClipToLayer :: Flags where "ClipToLayer = 0x10"
definition MatrixClip :: Flags where "MatrixClip = Matrix OR Clip"

definition kDontClipToLayer_Legacy_SaveLayerFlag :: "32 word" where
  "kDontClipToLayer_Legacy_SaveLayerFlag = push_bit 31 1"

datatype error = AssertFailed

record SaveRec =
  saveCount :: int
  saveFlags :: Flags
  clipIndex :: nat

text \<open>
  \<^verbatim>\<open>class SkiaCanvas::Clip\<close>. Its fields are private and it has three constructors, one
  per shape type; \<^verbatim>\<open>mType\<close> says which of \<^verbatim>\<open>mRRect\<close> and \<^verbatim>\<open>mPath\<close> is in use
  (the source calls them "logically a union"), so the type tag and the shape are one
  tagged value here. A rectangle is stored as \<^verbatim>\<open>SkRRect::MakeRect(rect)\<close>.
\<close>

datatype cliptype = Type_Rect skrrect | Type_RRect skrrect | Type_Path skpath

datatype clip = Clip_ctor (mType: cliptype) (mOp: skclipop) (mMatrix: skmatrix)

definition Clip_of_rect :: "skrect \<Rightarrow> skclipop \<Rightarrow> skmatrix \<Rightarrow> clip" where
  "Clip_of_rect r op m = Clip_ctor (Type_Rect (MakeRect r)) op m"

definition Clip_of_rrect :: "skrrect \<Rightarrow> skclipop \<Rightarrow> skmatrix \<Rightarrow> clip" where
  "Clip_of_rrect rr op m = Clip_ctor (Type_RRect rr) op m"

definition Clip_of_path :: "skpath \<Rightarrow> skclipop \<Rightarrow> skmatrix \<Rightarrow> clip" where
  "Clip_of_path p op m = Clip_ctor (Type_Path p) op m"

text \<open>
  \<^verbatim>\<open>Clip::apply\<close>: install the frozen transform, then issue the clip primitive of the
  stored shape. The anti-alias argument is left at the backend's default, false.
\<close>

definition Clip_apply :: "clip \<Rightarrow> skcanvas \<Rightarrow> skcanvas" where
  "Clip_apply cl canvas =
     (let canvas = sk_setMatrix (mMatrix cl) canvas in
      case mType cl of
        Type_Rect rr \<Rightarrow> sk_clipRect (rect rr) (mOp cl) False canvas
      | Type_RRect rr \<Rightarrow> sk_clipRRect rr (mOp cl) False canvas
      | Type_Path p \<Rightarrow> sk_clipPath p (mOp cl) False canvas)"

text \<open>
  The engine's state. \<^verbatim>\<open>mSaveStack\<close> is a pointer to a deque that is allocated on the
  first partial save: \<open>None\<close> is the null pointer, and the deque is listed from its back,
  so that \<^verbatim>\<open>push_back\<close> is \<open>#\<close>, \<^verbatim>\<open>back\<close> the head and \<^verbatim>\<open>pop_back\<close> the tail.
  \<^verbatim>\<open>mClipStack\<close> is a vector, listed from its front.
\<close>

record SkiaCanvas =
  mCanvas :: skcanvas
  mSaveStack :: "SaveRec list option"
  mClipStack :: "clip list"
  mHighContrastText :: bool

definition SkiaCanvas_new :: "skcanvas \<Rightarrow> SkiaCanvas" where
  "SkiaCanvas_new canvas =
     \<lparr>mCanvas = canvas, mSaveStack = None, mClipStack = [], mHighContrastText = False\<rparr>"

definition reset :: "skcanvas \<Rightarrow> SkiaCanvas \<Rightarrow> SkiaCanvas" where
  "reset skiaCanvas s =
     (let s = (if mCanvas s \<noteq> skiaCanvas then s\<lparr>mCanvas := skiaCanvas\<rparr> else s) in
      s\<lparr>mSaveStack := None, mHighContrastText := False\<rparr>)"

text \<open>
  \<^verbatim>\<open>class ClipCopier\<close>: each visitor method issues the same clip on the destination.
\<close>

fun ClipCopier :: "clipshape \<Rightarrow> skclipop \<Rightarrow> bool \<Rightarrow> skcanvas \<Rightarrow> skcanvas" where
  "ClipCopier (ClipRect r) op antialias m_dstCanvas = sk_clipRect r op antialias m_dstCanvas"
| "ClipCopier (ClipRRect rr) op antialias m_dstCanvas = sk_clipRRect rr op antialias m_dstCanvas"
| "ClipCopier (ClipPath p) op antialias m_dstCanvas = sk_clipPath p op antialias m_dstCanvas"

text \<open>
  \<^verbatim>\<open>setBitmap\<close>; \<open>activeClips\<close> is what the old canvas's \<^verbatim>\<open>replayClips\<close> enumerates.
\<close>

definition setBitmap ::
  "(skcanvas \<Rightarrow> (clipshape \<times> skclipop \<times> bool) list) \<Rightarrow> skbitmap \<Rightarrow> SkiaCanvas
     \<Rightarrow> SkiaCanvas" where
  "setBitmap activeClips bitmap s =
     (let newCanvas = sk_new bitmap;
          newCanvas =
            (if \<not> isNull bitmap
             then sk_replayClips activeClips ClipCopier (mCanvas s)
                    (sk_setMatrix (sk_getTotalMatrix (mCanvas s)) newCanvas)
             else newCanvas)
      in s\<lparr>mCanvas := newCanvas, mSaveStack := None\<rparr>)"

definition getSaveCount :: "SkiaCanvas \<Rightarrow> int" where
  "getSaveCount s = sk_getSaveCount (mCanvas s)"

text \<open>
  \<^verbatim>\<open>currentSaveRec\<close>: the back of the save stack, when it belongs to the backend's
  current frame. \<^verbatim>\<open>SkASSERT\<close> is fatal when it fails.
\<close>

definition currentSaveRec :: "SkiaCanvas \<Rightarrow> error + SaveRec option" where
  "currentSaveRec s =
     (let rec = (case mSaveStack s of None \<Rightarrow> None | Some [] \<Rightarrow> None | Some (r # _) \<Rightarrow> Some r);
          currentSaveCount = sk_getSaveCount (mCanvas s)
      in case rec of
           None \<Rightarrow> Inr None
         | Some r \<Rightarrow>
             if \<not> currentSaveCount \<ge> saveCount r then Inl AssertFailed
             else if saveCount r = currentSaveCount then Inr (Some r)
             else Inr None)"

definition recordPartialSave :: "Flags \<Rightarrow> SkiaCanvas \<Rightarrow> SkiaCanvas" where
  "recordPartialSave flags s =
     (let flags = flags AND MatrixClip in
      if flags = MatrixClip then s
      else
        let stack = (case mSaveStack s of None \<Rightarrow> [] | Some recs \<Rightarrow> recs);
            rec = \<lparr>saveCount = sk_getSaveCount (mCanvas s),
                   saveFlags = flags,
                   clipIndex = length (mClipStack s)\<rparr>
        in s\<lparr>mSaveStack := Some (rec # stack)\<rparr>)"

definition save :: "Flags \<Rightarrow> SkiaCanvas \<Rightarrow> int \<times> SkiaCanvas" where
  "save flags s =
     (let (count, canvas) = sk_save (mCanvas s) in
      (count, recordPartialSave flags (s\<lparr>mCanvas := canvas\<rparr>)))"

text \<open>
  \<^verbatim>\<open>preserveMatrix\<close> and \<^verbatim>\<open>preserveClip\<close>, as \<^verbatim>\<open>restore\<close> reads them from a save
  record: an aspect is preserved when its flag is absent.
\<close>

definition preserveMatrix :: "SaveRec \<Rightarrow> bool" where
  "preserveMatrix rec = (saveFlags rec AND Matrix = 0)"

definition preserveClip :: "SaveRec \<Rightarrow> bool" where
  "preserveClip rec = (saveFlags rec AND Clip = 0)"

definition recordClip ::
  "(skclipop \<Rightarrow> skmatrix \<Rightarrow> clip) \<Rightarrow> skclipop \<Rightarrow> SkiaCanvas \<Rightarrow> error + SkiaCanvas" where
  "recordClip mk op s =
     (case currentSaveRec s of
        Inl e \<Rightarrow> Inl e
      | Inr None \<Rightarrow> Inr s
      | Inr (Some rec) \<Rightarrow>
          if saveFlags rec AND Clip = 0
          then Inr (s\<lparr>mClipStack := mClipStack s @ [mk op (sk_getTotalMatrix (mCanvas s))]\<rparr>)
          else Inr s)"

definition applyPersistentClips :: "nat \<Rightarrow> SkiaCanvas \<Rightarrow> error + SkiaCanvas" where
  "applyPersistentClips clipStartIndex s =
     (if \<not> clipStartIndex \<le> length (mClipStack s) then Inl AssertFailed
      else
        let saveMatrix = sk_getTotalMatrix (mCanvas s);
            canvas = fold Clip_apply (drop clipStartIndex (mClipStack s)) (mCanvas s);
            s = s\<lparr>mCanvas := sk_setMatrix saveMatrix canvas\<rparr>
        in case currentSaveRec s of
             Inl e \<Rightarrow> Inl e
           | Inr None \<Rightarrow> Inr (s\<lparr>mClipStack := take clipStartIndex (mClipStack s)\<rparr>)
           | Inr (Some rec) \<Rightarrow>
               if saveFlags rec AND Clip \<noteq> 0
               then Inr (s\<lparr>mClipStack := take clipStartIndex (mClipStack s)\<rparr>)
               else Inr s)"

text \<open>
  \<^verbatim>\<open>restore\<close>. The two booleans that it computes from the record's flags are the
  functions \<open>preserveMatrix\<close> and \<open>preserveClip\<close> above. The local \<^verbatim>\<open>savedMatrix\<close> is
  assigned and read under \<^verbatim>\<open>preserveMatrix\<close> only.
\<close>

definition restore :: "SkiaCanvas \<Rightarrow> error + SkiaCanvas" where
  "restore s =
     (case currentSaveRec s of
        Inl e \<Rightarrow> Inl e
      | Inr None \<Rightarrow> Inr (s\<lparr>mCanvas := sk_restore (mCanvas s)\<rparr>)
      | Inr (Some rec) \<Rightarrow>
          let savedMatrix = sk_getTotalMatrix (mCanvas s);
              clipIndex = clipIndex rec;
              s = s\<lparr>mCanvas := sk_restore (mCanvas s)\<rparr>;
              s = s\<lparr>mSaveStack := map_option tl (mSaveStack s)\<rparr>;
              s = (if preserveMatrix rec
                   then s\<lparr>mCanvas := sk_setMatrix savedMatrix (mCanvas s)\<rparr> else s)
          in if preserveClip rec then applyPersistentClips clipIndex s else Inr s)"

text \<open>
  \<^verbatim>\<open>restoreToCount\<close> is a \<^verbatim>\<open>while\<close> loop. The backend's restore does nothing at the
  bottom of its stack, so for a target below 1 the loop does not end: the result
  \<open>None\<close> stands for not returning.
\<close>

partial_function (option) restoreToCount ::
  "int \<Rightarrow> SkiaCanvas \<Rightarrow> (error + SkiaCanvas) option" where
  "restoreToCount restoreCount s =
     (if sk_getSaveCount (mCanvas s) > restoreCount
      then (case restore s of
              Inl e \<Rightarrow> Some (Inl e)
            | Inr s' \<Rightarrow> restoreToCount restoreCount s')
      else Some (Inr s))"

definition layerFlags :: "Flags \<Rightarrow> 32 word" where
  "layerFlags flags =
     (let layerFlags = 0 in
      if flags AND ClipToLayer = 0
      then layerFlags OR kDontClipToLayer_Legacy_SaveLayerFlag
      else layerFlags)"

definition saveLayer ::
  "scalar \<Rightarrow> scalar \<Rightarrow> scalar \<Rightarrow> scalar \<Rightarrow> skpaint option \<Rightarrow> Flags \<Rightarrow> SkiaCanvas
     \<Rightarrow> int \<times> SkiaCanvas" where
  "saveLayer l t r b paint flags s =
     (let bounds = MakeLTRB l t r b;
          rec = SaveLayerRec (Some bounds) paint (layerFlags flags);
          (count, canvas) = sk_saveLayer rec (mCanvas s)
      in (count, s\<lparr>mCanvas := canvas\<rparr>))"

text \<open>
  \<^verbatim>\<open>saveLayerAlpha\<close>: \<^verbatim>\<open>alpha\<close> is a 32-bit \<^verbatim>\<open>int\<close>, held here as its bit pattern
  (\<open>sint\<close> reads the signed value). The cast \<^verbatim>\<open>static_cast<unsigned>(alpha)\<close> keeps the
  bits, so the comparison is on \<open>unat\<close>.
\<close>

definition saveLayerAlpha ::
  "scalar \<Rightarrow> scalar \<Rightarrow> scalar \<Rightarrow> scalar \<Rightarrow> 32 word \<Rightarrow> Flags \<Rightarrow> SkiaCanvas
     \<Rightarrow> int \<times> SkiaCanvas" where
  "saveLayerAlpha l t r b alpha flags s =
     (if unat alpha < 0xFF
      then
        let alphaPaint = SkPaint 0xFF;
            alphaPaint = setAlpha (unat alpha) alphaPaint
        in saveLayer l t r b (Some alphaPaint) flags s
      else saveLayer l t r b None flags s)"

definition setMatrix :: "skmatrix \<Rightarrow> SkiaCanvas \<Rightarrow> SkiaCanvas" where
  "setMatrix matrix s = s\<lparr>mCanvas := sk_setMatrix matrix (mCanvas s)\<rparr>"

text \<open>
  The clip calls; \<open>l t r b\<close> are the arguments left, top, right and bottom. Whether
  the resulting clip is empty is a question of geometry that the backend answers; its
  answer \<open>isClipEmpty\<close> is a parameter.
\<close>

definition clipRect ::
  "(skcanvas \<Rightarrow> bool) \<Rightarrow> scalar \<Rightarrow> scalar \<Rightarrow> scalar \<Rightarrow> scalar \<Rightarrow> skclipop \<Rightarrow> SkiaCanvas
     \<Rightarrow> error + (bool \<times> SkiaCanvas)" where
  "clipRect isClipEmpty l t r b op s =
     (let rect = MakeLTRB l t r b in
      case recordClip (Clip_of_rect rect) op s of
        Inl e \<Rightarrow> Inl e
      | Inr s \<Rightarrow>
          let s = s\<lparr>mCanvas := sk_clipRect rect op False (mCanvas s)\<rparr>
          in Inr (\<not> isClipEmpty (mCanvas s), s))"

definition clipPath ::
  "(skcanvas \<Rightarrow> bool) \<Rightarrow> skpath \<Rightarrow> skclipop \<Rightarrow> SkiaCanvas \<Rightarrow> error + (bool \<times> SkiaCanvas)" where
  "clipPath isClipEmpty path op s =
     (case isRRect path of
        Some roundRect \<Rightarrow>
          (case recordClip (Clip_of_rrect roundRect) op s of
             Inl e \<Rightarrow> Inl e
           | Inr s \<Rightarrow>
               let s = s\<lparr>mCanvas := sk_clipRRect roundRect op False (mCanvas s)\<rparr>
               in Inr (\<not> isClipEmpty (mCanvas s), s))
      | None \<Rightarrow>
          (case recordClip (Clip_of_path path) op s of
             Inl e \<Rightarrow> Inl e
           | Inr s \<Rightarrow>
               let s = s\<lparr>mCanvas := sk_clipPath path op False (mCanvas s)\<rparr>
               in Inr (\<not> isClipEmpty (mCanvas s), s)))"

section \<open>Auxiliary notions for the statements\<close>

text \<open>
  The backend clip operation that replaying one logged \<^verbatim>\<open>Clip\<close> issues: its shape and
  operator, not anti-aliased, under the transform frozen in the entry.
\<close>

definition Clip_element :: "clip \<Rightarrow> clipelem" where
  "Clip_element cl =
     \<lparr>ce_shape = (case mType cl of
                    Type_Rect rr \<Rightarrow> ClipRect (rect rr)
                  | Type_RRect rr \<Rightarrow> ClipRRect rr
                  | Type_Path p \<Rightarrow> ClipPath p),
      ce_op = mOp cl, ce_aa = False, ce_matrix = mMatrix cl\<rparr>"

text \<open>The save records from the back of the deque; a null deque has none.\<close>

definition saveStack :: "SkiaCanvas \<Rightarrow> SaveRec list" where
  "saveStack s = (case mSaveStack s of None \<Rightarrow> [] | Some recs \<Rightarrow> recs)"

text \<open>
  Whether a looked-up current record (the result of \<^verbatim>\<open>currentSaveRec\<close>) exists and
  preserves the clip, that is, lacks the Clip flag.
\<close>

definition keeps_clips :: "SaveRec option \<Rightarrow> bool" where
  "keeps_clips r = (case r of None \<Rightarrow> False | Some rec \<Rightarrow> preserveClip rec)"

text \<open>
  The invariant of the bookkeeping: towards the back of the deque the stored save counts
  grow strictly and the stored log indices do not shrink; no stored save count is above
  the backend's save count and no stored index is beyond the end of the clip log.
\<close>

definition stack_inv :: "SkiaCanvas \<Rightarrow> bool" where
  "stack_inv s \<longleftrightarrow>
     sorted_wrt (\<lambda>a b. saveCount b < saveCount a \<and> clipIndex b \<le> clipIndex a) (saveStack s) \<and>
     list_all (\<lambda>r. saveCount r \<le> sk_getSaveCount (mCanvas s) \<and>
                    clipIndex r \<le> length (mClipStack s)) (saveStack s)"

text \<open>
  The state in the middle of \<^verbatim>\<open>restore\<close>, after the backend restore, the
  \<^verbatim>\<open>pop_back\<close> and the reinstalled matrix, before the clips are replayed.
\<close>

definition popped :: "SaveRec \<Rightarrow> SkiaCanvas \<Rightarrow> SkiaCanvas" where
  "popped rec s =
     (let s1 = s\<lparr>mCanvas := sk_restore (mCanvas s)\<rparr>;
          s2 = s1\<lparr>mSaveStack := map_option tl (mSaveStack s1)\<rparr>
      in if preserveMatrix rec
         then s2\<lparr>mCanvas := sk_setMatrix (sk_getTotalMatrix (mCanvas s)) (mCanvas s2)\<rparr>
         else s2)"

definition restored_ok :: "int \<Rightarrow> SkiaCanvas \<Rightarrow> error + SkiaCanvas \<Rightarrow> bool" where
  "restored_ok n s res \<longleftrightarrow>
     (stack_inv s \<longrightarrow>
       (\<exists>s'. res = Inr s' \<and> stack_inv s'
          \<and> sk_getSaveCount (mCanvas s') \<le> max n (sk_getSaveCount (mCanvas s))))"

text \<open>
  The states an engine can be in: it starts around some backend canvas with no save
  record and an empty clip log, and changes by its state operations only. The other
  matrix calls (\<^verbatim>\<open>concat\<close>, \<^verbatim>\<open>rotate\<close>, \<^verbatim>\<open>scale\<close>, \<^verbatim>\<open>skew\<close>, \<^verbatim>\<open>translate\<close>)
  replace the backend's total transform as \<^verbatim>\<open>setMatrix\<close> does, with a matrix that the
  backend computes; the draw calls leave all of this state alone.
\<close>

inductive reachable :: "SkiaCanvas \<Rightarrow> bool" where
  r_new: "reachable (SkiaCanvas_new canvas)"
| r_reset: "reachable s \<Longrightarrow> reachable (reset canvas s)"
| r_setBitmap: "reachable s \<Longrightarrow> reachable (setBitmap activeClips bitmap s)"
| r_save: "reachable s \<Longrightarrow> reachable (snd (save flags s))"
| r_restore: "reachable s \<Longrightarrow> restore s = Inr s' \<Longrightarrow> reachable s'"
| r_restoreToCount: "reachable s \<Longrightarrow> restoreToCount n s = Some (Inr s') \<Longrightarrow> reachable s'"
| r_saveLayer: "reachable s \<Longrightarrow> reachable (snd (saveLayer l t r b paint flags s))"
| r_saveLayerAlpha: "reachable s \<Longrightarrow> reachable (snd (saveLayerAlpha l t r b alpha flags s))"
| r_setMatrix: "reachable s \<Longrightarrow> reachable (setMatrix matrix s)"
| r_clipRect: "reachable s \<Longrightarrow> clipRect isClipEmpty l t r b op s = Inr (e, s') \<Longrightarrow> reachable s'"
| r_clipPath: "reachable s \<Longrightarrow> clipPath isClipEmpty path op s = Inr (e, s') \<Longrightarrow> reachable s'"

text \<open>
  The client sequence of the spec's concrete scenario: a save, two rectangle clips and
  the paired restore.
\<close>

definition save_clip_clip_restore ::
  "(skcanvas \<Rightarrow> bool) \<Rightarrow> Flags \<Rightarrow> skrect \<Rightarrow> skclipop \<Rightarrow> skrect \<Rightarrow> skclipop \<Rightarrow> SkiaCanvas
     \<Rightarrow> error + SkiaCanvas" where
  "save_clip_clip_restore isClipEmpty flags A opA B opB s =
     (let (count, s) = save flags s in
      case clipRect isClipEmpty (fLeft A) (fTop A) (fRight A) (fBottom A) opA s of
        Inl e \<Rightarrow> Inl e
      | Inr (nonEmpty, s) \<Rightarrow>
          (case clipRect isClipEmpty (fLeft B) (fTop B) (fRight B) (fBottom B) opB s of
             Inl e \<Rightarrow> Inl e
           | Inr (nonEmpty, s) \<Rightarrow> restore s))"

text \<open>Concrete states on which the statements below are tried.\<close>

definition never_empty :: "skcanvas \<Rightarrow> bool" where
  "never_empty c = False"

definition fresh :: SkiaCanvas where
  "fresh = SkiaCanvas_new (sk_new (SkBitmap False 100 100))"

definition translated :: skmatrix where
  "translated = SkMatrix [1, 0, 5, 0, 1, 7, 0, 0, 1]"

text \<open>A frame that preserves the clip (the Clip flag is absent), with one clip inside.\<close>

definition clip_frame :: SkiaCanvas where
  "clip_frame =
     snd (projr (clipRect never_empty 0 0 10 10 kIntersect (snd (save Matrix fresh))))"


text \<open>A frame that preserves the matrix (the Matrix flag is absent), moved inside.\<close>

definition matrix_frame :: SkiaCanvas where
  "matrix_frame = setMatrix translated (snd (save Clip fresh))"

section \<open>Facts about the backend\<close>

lemma sk_setMatrix_simps [simp]:
  "sk_getSaveCount (sk_setMatrix m c) = sk_getSaveCount c"
  "sk_getTotalMatrix (sk_setMatrix m c) = m"
  "sk_getClip (sk_setMatrix m c) = sk_getClip c"
  "fMCStack (sk_setMatrix m c) = fMCStack c"
  by (simp_all add: sk_setMatrix_def sk_getSaveCount_def sk_getTotalMatrix_def sk_getClip_def)

lemma sk_clip_simps [simp]:
  "sk_getSaveCount (sk_clip sh op aa c) = sk_getSaveCount c"
  "sk_getTotalMatrix (sk_clip sh op aa c) = sk_getTotalMatrix c"
  "sk_getClip (sk_clip sh op aa c) =
     sk_getClip c @ [\<lparr>ce_shape = sh, ce_op = op, ce_aa = aa, ce_matrix = sk_getTotalMatrix c\<rparr>]"
  "fMCStack (sk_clip sh op aa c) = fMCStack c"
  by (simp_all add: sk_clip_def sk_getSaveCount_def sk_getTotalMatrix_def sk_getClip_def)

lemma sk_save_simps [simp]:
  "fst (sk_save c) = sk_getSaveCount c"
  "sk_getSaveCount (snd (sk_save c)) = sk_getSaveCount c + 1"
  "sk_getTotalMatrix (snd (sk_save c)) = sk_getTotalMatrix c"
  "sk_getClip (snd (sk_save c)) = sk_getClip c"
  by (simp_all add: sk_save_def sk_getSaveCount_def sk_getTotalMatrix_def sk_getClip_def)

lemma sk_saveLayer_simps [simp]:
  "fst (sk_saveLayer rec c) = sk_getSaveCount c"
  "sk_getSaveCount (snd (sk_saveLayer rec c)) = sk_getSaveCount c + 1"
  "sk_getTotalMatrix (snd (sk_saveLayer rec c)) = sk_getTotalMatrix c"
  "sk_getClip (snd (sk_saveLayer rec c)) = sk_getClip c"
  by (simp_all add: sk_saveLayer_def sk_getSaveCount_def sk_getTotalMatrix_def sk_getClip_def)

lemma sk_restore_save [simp]:
  "sk_getTotalMatrix (sk_restore (snd (sk_save c))) = sk_getTotalMatrix c"
  "sk_getClip (sk_restore (snd (sk_save c))) = sk_getClip c"
  "sk_getSaveCount (sk_restore (snd (sk_save c))) = sk_getSaveCount c"
  by (simp_all add: sk_save_def sk_restore_def sk_getSaveCount_def sk_getTotalMatrix_def
      sk_getClip_def)

lemma sk_restore_count_lower: "sk_getSaveCount c - 1 \<le> sk_getSaveCount (sk_restore c)"
  by (simp add: sk_restore_def sk_getSaveCount_def split: list.splits)

lemma sk_restore_count_upper: "sk_getSaveCount (sk_restore c) \<le> sk_getSaveCount c"
  by (simp add: sk_restore_def sk_getSaveCount_def split: list.splits)

lemma sk_restore_count_dec:
  "1 < sk_getSaveCount c \<Longrightarrow> sk_getSaveCount (sk_restore c) = sk_getSaveCount c - 1"
  by (simp add: sk_restore_def sk_getSaveCount_def split: list.splits)

lemma sk_getSaveCount_pos: "1 \<le> sk_getSaveCount c"
  by (simp add: sk_getSaveCount_def)

lemma Clip_apply_simps [simp]:
  "sk_getSaveCount (Clip_apply cl c) = sk_getSaveCount c"
  "sk_getClip (Clip_apply cl c) = sk_getClip c @ [Clip_element cl]"
  "fMCStack (Clip_apply cl c) = fMCStack c"
  by (simp_all add: Clip_apply_def Let_def Clip_element_def sk_clipRect_def sk_clipRRect_def
      sk_clipPath_def split: cliptype.splits)

lemma fold_Clip_apply [simp]:
  "sk_getSaveCount (fold Clip_apply cls c) = sk_getSaveCount c"
  "sk_getClip (fold Clip_apply cls c) = sk_getClip c @ map Clip_element cls"
  "fMCStack (fold Clip_apply cls c) = fMCStack c"
  by (induction cls arbitrary: c) simp_all

section \<open>Facts about the engine\<close>

lemma currentSaveRec_cong:
  "mSaveStack s' = mSaveStack s \<Longrightarrow> sk_getSaveCount (mCanvas s') = sk_getSaveCount (mCanvas s)
     \<Longrightarrow> currentSaveRec s' = currentSaveRec s"
  by (simp add: currentSaveRec_def)

lemma currentSaveRec_Some:
  "currentSaveRec s = Inr (Some rec) \<Longrightarrow>
     (\<exists>rest. mSaveStack s = Some (rec # rest)) \<and> saveCount rec = sk_getSaveCount (mCanvas s)"
  by (auto simp: currentSaveRec_def Let_def split: option.splits list.splits if_splits)

lemma currentSaveRec_ok:
  "stack_inv s \<Longrightarrow> \<exists>r. currentSaveRec s = Inr r"
  by (auto simp: currentSaveRec_def stack_inv_def saveStack_def Let_def
      split: option.splits list.splits)

lemma applyPersistentClips_result:
  assumes idx: "i \<le> length (mClipStack s)" and cur: "currentSaveRec s = Inr r"
  shows "\<exists>s'. applyPersistentClips i s = Inr s'
           \<and> mSaveStack s' = mSaveStack s
           \<and> mHighContrastText s' = mHighContrastText s
           \<and> sk_getSaveCount (mCanvas s') = sk_getSaveCount (mCanvas s)
           \<and> fMCStack (mCanvas s') = fMCStack (mCanvas s)
           \<and> sk_getTotalMatrix (mCanvas s') = sk_getTotalMatrix (mCanvas s)
           \<and> sk_getClip (mCanvas s') =
               sk_getClip (mCanvas s) @ map Clip_element (drop i (mClipStack s))
           \<and> mClipStack s' = (if keeps_clips r then mClipStack s else take i (mClipStack s))"
proof -
  define c' where "c' = sk_setMatrix (sk_getTotalMatrix (mCanvas s))
                          (fold Clip_apply (drop i (mClipStack s)) (mCanvas s))"
  have "currentSaveRec (s\<lparr>mCanvas := c'\<rparr>) = currentSaveRec s"
    by (rule currentSaveRec_cong) (simp_all add: c'_def)
  with cur have cur': "currentSaveRec (s\<lparr>mCanvas := c'\<rparr>) = Inr r"
    by simp
  show ?thesis
    using idx cur'
    by (cases r)
       (auto simp: applyPersistentClips_def Let_def keeps_clips_def preserveClip_def
          simp flip: c'_def, simp_all add: c'_def)
qed

lemma saveStack_simps [simp]:
  "saveStack (s\<lparr>mCanvas := c\<rparr>) = saveStack s"
  "saveStack (s\<lparr>mClipStack := cs\<rparr>) = saveStack s"
  "saveStack (s\<lparr>mHighContrastText := h\<rparr>) = saveStack s"
  "saveStack (s\<lparr>mSaveStack := None\<rparr>) = []"
  "saveStack (s\<lparr>mSaveStack := Some recs\<rparr>) = recs"
  by (simp_all add: saveStack_def)

lemma stack_inv_canvas:
  "stack_inv s \<Longrightarrow> sk_getSaveCount (mCanvas s) \<le> sk_getSaveCount c
     \<Longrightarrow> stack_inv (s\<lparr>mCanvas := c\<rparr>)"
  by (auto simp: stack_inv_def list_all_iff)

lemma stack_inv_cong:
  "stack_inv s \<Longrightarrow> saveStack s' = saveStack s
     \<Longrightarrow> sk_getSaveCount (mCanvas s) \<le> sk_getSaveCount (mCanvas s')
     \<Longrightarrow> length (mClipStack s) \<le> length (mClipStack s')
     \<Longrightarrow> stack_inv s'"
  by (auto simp: stack_inv_def list_all_iff)

lemma stack_inv_empty: "saveStack s = [] \<Longrightarrow> stack_inv s"
  by (simp add: stack_inv_def)

lemma stack_inv_new: "stack_inv (SkiaCanvas_new c)"
  by (simp add: stack_inv_empty saveStack_def SkiaCanvas_new_def)

lemma stack_inv_reset: "stack_inv (reset c s)"
  by (simp add: stack_inv_empty saveStack_def reset_def Let_def)

lemma stack_inv_setBitmap: "stack_inv (setBitmap activeClips bitmap s)"
  by (simp add: stack_inv_empty saveStack_def setBitmap_def Let_def)

lemma stack_inv_setMatrix: "stack_inv s \<Longrightarrow> stack_inv (setMatrix m s)"
  by (simp add: setMatrix_def stack_inv_canvas)

lemma stack_inv_recordPartialSave:
  assumes "stack_inv s"
  shows "stack_inv (recordPartialSave flags (s\<lparr>mCanvas := snd (sk_save (mCanvas s))\<rparr>))"
  using assms
  by (auto simp: recordPartialSave_def Let_def stack_inv_def list_all_iff
      simp flip: saveStack_def)

lemma save_unfold:
  "save flags s =
     (sk_getSaveCount (mCanvas s),
      recordPartialSave flags (s\<lparr>mCanvas := snd (sk_save (mCanvas s))\<rparr>))"
  by (simp add: save_def sk_save_def)

lemma stack_inv_save: "stack_inv s \<Longrightarrow> stack_inv (snd (save flags s))"
  by (simp add: save_unfold stack_inv_recordPartialSave)

lemma saveLayer_unfold:
  "saveLayer l t r b paint flags s =
     (sk_getSaveCount (mCanvas s),
      s\<lparr>mCanvas := snd (sk_saveLayer
         (SaveLayerRec (Some (MakeLTRB l t r b)) paint (layerFlags flags)) (mCanvas s))\<rparr>)"
  by (simp add: saveLayer_def sk_saveLayer_def)

lemma stack_inv_saveLayer: "stack_inv s \<Longrightarrow> stack_inv (snd (saveLayer l t r b paint flags s))"
  by (simp add: saveLayer_unfold stack_inv_canvas)

lemma stack_inv_saveLayerAlpha:
  "stack_inv s \<Longrightarrow> stack_inv (snd (saveLayerAlpha l t r b alpha flags s))"
  by (simp add: saveLayerAlpha_def stack_inv_saveLayer)

lemma recordClip_result:
  assumes "currentSaveRec s = Inr r"
  shows "recordClip mk op s =
           Inr (if keeps_clips r
                then s\<lparr>mClipStack := mClipStack s @ [mk op (sk_getTotalMatrix (mCanvas s))]\<rparr>
                else s)"
  using assms
  by (cases r) (simp_all add: recordClip_def keeps_clips_def preserveClip_def)

lemma stack_inv_recordClip:
  assumes "stack_inv s"
  shows "\<exists>s'. recordClip mk op s = Inr s' \<and> stack_inv s' \<and> mCanvas s' = mCanvas s"
proof -
  from assms obtain r where r: "currentSaveRec s = Inr r"
    using currentSaveRec_ok by blast
  have "stack_inv (s\<lparr>mClipStack := mClipStack s @ [x]\<rparr>)" for x
    using assms by (rule stack_inv_cong) simp_all
  with assms show ?thesis
    by (simp add: recordClip_result [OF r])
qed

lemma stack_inv_clipRect:
  assumes "stack_inv s"
  shows "\<exists>e s'. clipRect isClipEmpty l t r b op s = Inr (e, s') \<and> stack_inv s'"
proof -
  from stack_inv_recordClip [OF assms]
  obtain s1 where s1: "recordClip (Clip_of_rect (MakeLTRB l t r b)) op s = Inr s1"
    "stack_inv s1" by blast
  then show ?thesis
    by (simp add: clipRect_def Let_def stack_inv_canvas sk_clipRect_def)
qed

lemma stack_inv_clipPath:
  assumes "stack_inv s"
  shows "\<exists>e s'. clipPath isClipEmpty path op s = Inr (e, s') \<and> stack_inv s'"
proof (cases "isRRect path")
  case None
  from stack_inv_recordClip [OF assms]
  obtain s1 where s1: "recordClip (Clip_of_path path) op s = Inr s1"
    "stack_inv s1" by blast
  with None show ?thesis
    by (simp add: clipPath_def Let_def stack_inv_canvas sk_clipPath_def)
next
  case (Some roundRect)
  from stack_inv_recordClip [OF assms]
  obtain s1 where s1: "recordClip (Clip_of_rrect roundRect) op s = Inr s1"
    "stack_inv s1" by blast
  with Some show ?thesis
    by (simp add: clipPath_def Let_def stack_inv_canvas sk_clipRRect_def)
qed

lemma restore_no_record:
  "currentSaveRec s = Inr None \<Longrightarrow> restore s = Inr (s\<lparr>mCanvas := sk_restore (mCanvas s)\<rparr>)"
  by (simp add: restore_def)

lemma restore_current:
  "currentSaveRec s = Inr (Some rec) \<Longrightarrow>
     restore s = (if preserveClip rec then applyPersistentClips (clipIndex rec) (popped rec s)
                  else Inr (popped rec s))"
  by (simp add: restore_def popped_def Let_def)

lemma popped_simps [simp]:
  "mClipStack (popped rec s) = mClipStack s"
  "mHighContrastText (popped rec s) = mHighContrastText s"
  "mSaveStack (popped rec s) = map_option tl (mSaveStack s)"
  "sk_getSaveCount (mCanvas (popped rec s)) = sk_getSaveCount (sk_restore (mCanvas s))"
  "sk_getClip (mCanvas (popped rec s)) = sk_getClip (sk_restore (mCanvas s))"
  "sk_getTotalMatrix (mCanvas (popped rec s)) =
     (if preserveMatrix rec then sk_getTotalMatrix (mCanvas s)
      else sk_getTotalMatrix (sk_restore (mCanvas s)))"
  by (simp_all add: popped_def Let_def)

lemma stack_inv_popped:
  assumes inv: "stack_inv s" and cur: "currentSaveRec s = Inr (Some rec)"
  shows "stack_inv (popped rec s)"
    and "list_all (\<lambda>r. clipIndex r \<le> clipIndex rec) (saveStack (popped rec s))"
    and "clipIndex rec \<le> length (mClipStack s)"
proof -
  from currentSaveRec_Some [OF cur] obtain rest where
    st: "mSaveStack s = Some (rec # rest)" and cnt: "saveCount rec = sk_getSaveCount (mCanvas s)"
    by blast
  have ss: "saveStack s = rec # rest" "saveStack (popped rec s) = rest"
    using st by (simp_all add: saveStack_def)
  from inv ss have below: "\<forall>r\<in>set rest. saveCount r < saveCount rec \<and> clipIndex r \<le> clipIndex rec"
    and srt: "sorted_wrt (\<lambda>a b. saveCount b < saveCount a \<and> clipIndex b \<le> clipIndex a) rest"
    and idx: "\<forall>r\<in>set rest. clipIndex r \<le> length (mClipStack s)"
    and top: "clipIndex rec \<le> length (mClipStack s)"
    by (auto simp: stack_inv_def list_all_iff)
  have "\<forall>r\<in>set rest. saveCount r \<le> sk_getSaveCount (sk_restore (mCanvas s))"
  proof
    fix r assume "r \<in> set rest"
    with below cnt have "saveCount r \<le> sk_getSaveCount (mCanvas s) - 1"
      by fastforce
    with sk_restore_count_lower [of "mCanvas s"] show "saveCount r \<le> sk_getSaveCount (sk_restore (mCanvas s))"
      by linarith
  qed
  with srt idx ss show "stack_inv (popped rec s)"
    by (simp add: stack_inv_def list_all_iff)
  from below ss show "list_all (\<lambda>r. clipIndex r \<le> clipIndex rec) (saveStack (popped rec s))"
    by (simp add: list_all_iff)
  from top show "clipIndex rec \<le> length (mClipStack s)" .
qed

lemma restore_current_result:
  assumes inv: "stack_inv s" and cur: "currentSaveRec s = Inr (Some rec)"
  shows "\<exists>s' r'. restore s = Inr s' \<and> stack_inv s'
           \<and> currentSaveRec (popped rec s) = Inr r'
           \<and> mSaveStack s' = map_option tl (mSaveStack s)
           \<and> mHighContrastText s' = mHighContrastText s
           \<and> sk_getSaveCount (mCanvas s') = sk_getSaveCount (sk_restore (mCanvas s))
           \<and> sk_getTotalMatrix (mCanvas s') =
               (if preserveMatrix rec then sk_getTotalMatrix (mCanvas s)
                else sk_getTotalMatrix (sk_restore (mCanvas s)))
           \<and> sk_getClip (mCanvas s') =
               (if preserveClip rec
                then sk_getClip (sk_restore (mCanvas s)) @
                       map Clip_element (drop (clipIndex rec) (mClipStack s))
                else sk_getClip (sk_restore (mCanvas s)))
           \<and> mClipStack s' =
               (if preserveClip rec \<and> \<not> keeps_clips r'
                then take (clipIndex rec) (mClipStack s) else mClipStack s)"
proof -
  note p = stack_inv_popped [OF inv cur]
  from currentSaveRec_ok [OF p(1)] obtain r' where r': "currentSaveRec (popped rec s) = Inr r'"
    by blast
  show ?thesis
  proof (cases "preserveClip rec")
    case False
    with p(1) r' show ?thesis
      by (simp add: restore_current [OF cur])
  next
    case True
    from p(3) have idx: "clipIndex rec \<le> length (mClipStack (popped rec s))"
      by simp
    from applyPersistentClips_result [OF idx r'] obtain s' where
      s': "applyPersistentClips (clipIndex rec) (popped rec s) = Inr s'"
        "mSaveStack s' = mSaveStack (popped rec s)"
        "mHighContrastText s' = mHighContrastText (popped rec s)"
        "sk_getSaveCount (mCanvas s') = sk_getSaveCount (mCanvas (popped rec s))"
        "sk_getTotalMatrix (mCanvas s') = sk_getTotalMatrix (mCanvas (popped rec s))"
        "sk_getClip (mCanvas s') = sk_getClip (mCanvas (popped rec s)) @
           map Clip_element (drop (clipIndex rec) (mClipStack (popped rec s)))"
        "mClipStack s' = (if keeps_clips r' then mClipStack (popped rec s)
                          else take (clipIndex rec) (mClipStack (popped rec s)))"
      by blast
    have ss: "saveStack s' = saveStack (popped rec s)"
      using s'(2) by (simp add: saveStack_def)
    have "stack_inv s'"
      using p(1) p(2) p(3) s'(4) s'(7) unfolding stack_inv_def ss
      by (auto simp: list_all_iff)
    with True s' r' show ?thesis
      by (simp add: restore_current [OF cur])
  qed
qed

lemma currentSaveRec_None_below:
  assumes inv: "stack_inv s" and cur: "currentSaveRec s = Inr None"
  shows "\<forall>r\<in>set (saveStack s). saveCount r < sk_getSaveCount (mCanvas s)"
proof (cases "saveStack s")
  case Nil
  then show ?thesis by simp
next
  case (Cons r0 rest)
  with cur inv have "saveCount r0 < sk_getSaveCount (mCanvas s)"
    by (auto simp: currentSaveRec_def saveStack_def Let_def stack_inv_def
        split: option.splits list.splits if_splits)
  moreover from inv Cons have "\<forall>r\<in>set rest. saveCount r < saveCount r0"
    by (simp add: stack_inv_def)
  ultimately show ?thesis
    using Cons by fastforce
qed

lemma restore_result:
  assumes inv: "stack_inv s"
  shows "\<exists>s'. restore s = Inr s' \<and> stack_inv s'
           \<and> sk_getSaveCount (mCanvas s') = sk_getSaveCount (sk_restore (mCanvas s))"
proof -
  from currentSaveRec_ok [OF inv] obtain r where r: "currentSaveRec s = Inr r"
    by blast
  show ?thesis
  proof (cases r)
    case None
    with r have below: "\<forall>r\<in>set (saveStack s). saveCount r < sk_getSaveCount (mCanvas s)"
      using currentSaveRec_None_below [OF inv] by simp
    have "\<forall>r\<in>set (saveStack s). saveCount r \<le> sk_getSaveCount (sk_restore (mCanvas s))"
    proof
      fix x assume "x \<in> set (saveStack s)"
      with below have "saveCount x \<le> sk_getSaveCount (mCanvas s) - 1"
        by fastforce
      with sk_restore_count_lower [of "mCanvas s"]
      show "saveCount x \<le> sk_getSaveCount (sk_restore (mCanvas s))"
        by linarith
    qed
    with None r inv show ?thesis
      by (simp add: restore_no_record stack_inv_def list_all_iff)
  next
    case (Some rec)
    with r restore_current_result [OF inv, of rec] show ?thesis
      by blast
  qed
qed

lemma restoreToCount_noop:
  "sk_getSaveCount (mCanvas s) \<le> n \<Longrightarrow> restoreToCount n s = Some (Inr s)"
  by (subst restoreToCount.simps) simp

lemma restoreToCount_step:
  "n < sk_getSaveCount (mCanvas s) \<Longrightarrow> restore s = Inr s' \<Longrightarrow>
     restoreToCount n s = restoreToCount n s'"
  by (subst restoreToCount.simps) simp

lemma restoreToCount_inv_aux:
  assumes "restoreToCount n s = Some res"
  shows "restored_ok n s res"
proof (rule restoreToCount.raw_induct [where P = restored_ok, OF _ assms])
  fix f :: "int \<Rightarrow> SkiaCanvas \<Rightarrow> (error + SkiaCanvas) option" and n s res
  assume IH: "\<And>n s res. f n s = Some res \<Longrightarrow> restored_ok n s res"
    and eq: "(if n < sk_getSaveCount (mCanvas s)
              then case restore s of Inl e \<Rightarrow> Some (Inl e) | Inr s' \<Rightarrow> f n s'
              else Some (Inr s)) = Some res"
  show "restored_ok n s res"
    unfolding restored_ok_def
  proof
    assume inv: "stack_inv s"
    show "\<exists>s'. res = Inr s' \<and> stack_inv s'
            \<and> sk_getSaveCount (mCanvas s') \<le> max n (sk_getSaveCount (mCanvas s))"
    proof (cases "n < sk_getSaveCount (mCanvas s)")
      case False
      with eq inv show ?thesis by auto
    next
      case True
      from restore_result [OF inv] obtain s1 where
        s1: "restore s = Inr s1" "stack_inv s1"
          "sk_getSaveCount (mCanvas s1) = sk_getSaveCount (sk_restore (mCanvas s))"
        by blast
      with True eq have "f n s1 = Some res"
        by simp
      from IH [OF this] s1(2) obtain s' where
        "res = Inr s'" "stack_inv s'"
        "sk_getSaveCount (mCanvas s') \<le> max n (sk_getSaveCount (mCanvas s1))"
        unfolding restored_ok_def by blast
      with s1(3) sk_restore_count_upper [of "mCanvas s"] show ?thesis
        by auto
    qed
  qed
qed

lemma restoreToCount_inv:
  assumes "restoreToCount n s = Some res" and "stack_inv s"
  shows "\<exists>s'. res = Inr s' \<and> stack_inv s'
           \<and> sk_getSaveCount (mCanvas s') \<le> max n (sk_getSaveCount (mCanvas s))"
  using restoreToCount_inv_aux [OF assms(1)] assms(2) unfolding restored_ok_def by blast

lemma restoreToCount_returns:
  assumes "stack_inv s" and "1 \<le> n"
  shows "\<exists>s'. restoreToCount n s = Some (Inr s') \<and> stack_inv s'
           \<and> sk_getSaveCount (mCanvas s') = min n (sk_getSaveCount (mCanvas s))"
  using assms(1)
proof (induction k \<equiv> "nat (sk_getSaveCount (mCanvas s) - n)" arbitrary: s)
  case 0
  then have "sk_getSaveCount (mCanvas s) \<le> n"
    by simp
  with 0 show ?case
    by (simp add: restoreToCount_noop)
next
  case (Suc k)
  then have gt: "n < sk_getSaveCount (mCanvas s)"
    by linarith
  from restore_result [OF \<open>stack_inv s\<close>] obtain s1 where
    s1: "restore s = Inr s1" "stack_inv s1"
      "sk_getSaveCount (mCanvas s1) = sk_getSaveCount (sk_restore (mCanvas s))"
    by blast
  from gt \<open>1 \<le> n\<close> have dec: "sk_getSaveCount (sk_restore (mCanvas s)) = sk_getSaveCount (mCanvas s) - 1"
    by (intro sk_restore_count_dec) simp
  with s1(3) Suc(2) have "k = nat (sk_getSaveCount (mCanvas s1) - n)"
    by simp
  from Suc(1) [OF this s1(2)] obtain s' where
    "restoreToCount n s1 = Some (Inr s')" "stack_inv s'"
    "sk_getSaveCount (mCanvas s') = min n (sk_getSaveCount (mCanvas s1))"
    by blast
  with gt s1 dec show ?case
    by (simp add: restoreToCount_step [OF gt s1(1)])
qed

lemma reachable_stack_inv: "reachable s \<Longrightarrow> stack_inv s"
proof (induction rule: reachable.induct)
  case (r_restore s s')
  with restore_result [of s] show ?case by auto
next
  case (r_restoreToCount s n s')
  with restoreToCount_inv [of n s "Inr s'"] show ?case by auto
next
  case (r_clipRect s isClipEmpty l t r b op e s')
  with stack_inv_clipRect [of s isClipEmpty l t r b op] show ?case by auto
next
  case (r_clipPath s isClipEmpty path op e s')
  with stack_inv_clipPath [of s isClipEmpty path op] show ?case by auto
qed (simp_all add: stack_inv_new stack_inv_reset stack_inv_setBitmap stack_inv_save
      stack_inv_saveLayer stack_inv_saveLayerAlpha stack_inv_setMatrix)


section \<open>Facts about the flags\<close>

lemma masked_Matrix: "(flags AND MatrixClip) AND Matrix = flags AND Matrix"
  by (simp add: MatrixClip_def Matrix_def Clip_def and.assoc)

lemma masked_Clip: "(flags AND MatrixClip) AND Clip = flags AND Clip"
  by (simp add: MatrixClip_def Matrix_def Clip_def and.assoc)

lemma MatrixClip_Clip: "MatrixClip AND Clip \<noteq> 0" "MatrixClip AND Matrix \<noteq> 0"
  by (simp_all add: MatrixClip_def Matrix_def Clip_def)

lemma partial_if_no_Clip: "flags AND Clip = 0 \<Longrightarrow> flags AND MatrixClip \<noteq> MatrixClip"
  using masked_Clip [of flags] MatrixClip_Clip(1) by metis

lemma partial_if_no_Matrix: "flags AND Matrix = 0 \<Longrightarrow> flags AND MatrixClip \<noteq> MatrixClip"
  using masked_Matrix [of flags] MatrixClip_Clip(2) by metis

lemma not_partial_iff:
  "flags AND MatrixClip = MatrixClip \<longleftrightarrow> flags AND Matrix \<noteq> 0 \<and> flags AND Clip \<noteq> 0"
proof -
  have m: "flags AND Matrix \<noteq> 0 \<longleftrightarrow> bit flags 0"
    by (simp add: Matrix_def and_one_eq bit_0 mod_2_eq_odd)
  have c: "flags AND Clip \<noteq> 0 \<longleftrightarrow> bit flags 1"
    using bit_and_iff [of flags 2 1] and_exp_eq_0_iff_not_bit [of flags 1]
    by (simp add: Clip_def)
  have "flags AND MatrixClip = MatrixClip \<longleftrightarrow> bit flags 0 \<and> bit flags 1"
  proof -
    have mc: "MatrixClip = mask 2"
      by (simp add: MatrixClip_def Matrix_def Clip_def mask_eq_exp_minus_1)
    have "flags AND mask 2 = mask 2 \<longleftrightarrow> (\<forall>n<2. bit flags n)"
    proof -
      have "flags AND mask 2 = mask 2 \<longleftrightarrow> (\<forall>n<32. (bit flags n \<and> n < 2) = (n < 2))"
        by (auto simp: bit_eq_iff bit_and_iff bit_mask_iff)
      also have "\<dots> \<longleftrightarrow> (\<forall>n<2. bit flags n)"
      proof
        assume all: "\<forall>n<32. (bit flags n \<and> n < 2) = (n < 2)"
        show "\<forall>n<2. bit flags n"
        proof (intro allI impI)
          fix n :: nat
          assume n: "n < 2"
          then have "n < 32"
            by simp
          with all n show "bit flags n"
            by blast
        qed
      next
        assume "\<forall>n<2. bit flags n"
        then show "\<forall>n<32. (bit flags n \<and> n < 2) = (n < 2)"
          by blast
      qed
      finally show ?thesis .
    qed
    also have "\<dots> \<longleftrightarrow> bit flags 0 \<and> bit flags 1"
      by (auto simp: less_2_cases_iff)
    finally show ?thesis
      by (simp add: mc)
  qed
  with m c show ?thesis by simp
qed

section \<open>Reading a 32-bit int as unsigned\<close>

lemma unat_lt_255_iff_sint:
  fixes alpha :: "32 word"
  shows "unat alpha < 255 \<longleftrightarrow> 0 \<le> sint alpha \<and> sint alpha < 255"
    and "0 \<le> sint alpha \<Longrightarrow> int (unat alpha) = sint alpha"
proof -
  have u: "uint alpha = sint alpha mod 2 ^ 32"
    by (simp add: uint_sint take_bit_eq_mod)
  have lo: "- (2 ^ 31) \<le> sint alpha" and hi: "sint alpha < 2 ^ 31"
    using sint_ge [of alpha] sint_lt [of alpha] by simp_all
  have un: "int (unat alpha) = uint alpha"
    by simp
  have pos: "int (unat alpha) = sint alpha" if "0 \<le> sint alpha"
  proof -
    from that hi have "sint alpha mod 2 ^ 32 = sint alpha"
      by (intro mod_pos_pos_trivial) simp_all
    with u un show ?thesis by simp
  qed
  then show "0 \<le> sint alpha \<Longrightarrow> int (unat alpha) = sint alpha" .
  show "unat alpha < 255 \<longleftrightarrow> 0 \<le> sint alpha \<and> sint alpha < 255"
  proof (cases "sint alpha < 0")
    case True
    have "(sint alpha + 2 ^ 32) mod 2 ^ 32 = sint alpha + 2 ^ 32"
      using lo True by (intro mod_pos_pos_trivial) simp_all
    then have "uint alpha = sint alpha + 2 ^ 32"
      using u by simp
    then have "255 \<le> uint alpha"
      using lo by simp
    then have "\<not> unat alpha < 255"
      using un by linarith
    then show ?thesis
      using True by simp
  next
    case False
    then have "int (unat alpha) = sint alpha"
      using pos by simp
    then show ?thesis
      using False by linarith
  qed
qed

section \<open>Results of the clip calls and of the replay\<close>

lemma Clip_apply_eq:
  "Clip_apply cl c = sk_clip (ce_shape (Clip_element cl)) (mOp cl) False (sk_setMatrix (mMatrix cl) c)"
  by (simp add: Clip_apply_def Let_def Clip_element_def sk_clipRect_def sk_clipRRect_def
      sk_clipPath_def split: cliptype.splits)

lemma applyPersistentClips_canvas:
  assumes "applyPersistentClips i s = Inr s'"
  shows "mCanvas s' = sk_setMatrix (sk_getTotalMatrix (mCanvas s))
                        (fold Clip_apply (drop i (mClipStack s)) (mCanvas s))"
  using assms
  by (auto simp: applyPersistentClips_def Let_def split: if_splits sum.splits option.splits)

lemma applyPersistentClips_frame:
  assumes "applyPersistentClips i s = Inr s'"
  shows "sk_getTotalMatrix (mCanvas s') = sk_getTotalMatrix (mCanvas s)"
    and "mSaveStack s' = mSaveStack s"
proof -
  show "sk_getTotalMatrix (mCanvas s') = sk_getTotalMatrix (mCanvas s)"
    by (simp add: applyPersistentClips_canvas [OF assms])
  show "mSaveStack s' = mSaveStack s"
    using assms
    by (auto simp: applyPersistentClips_def Let_def split: if_splits sum.splits option.splits)
qed

lemma clipRect_result:
  assumes "currentSaveRec s = Inr r"
  shows "\<exists>e s'. clipRect isClipEmpty l t r' b op s = Inr (e, s')
           \<and> mClipStack s' =
               (if keeps_clips r
                then mClipStack s @
                       [Clip_of_rect (MakeLTRB l t r' b) op (sk_getTotalMatrix (mCanvas s))]
                else mClipStack s)
           \<and> mCanvas s' = sk_clipRect (MakeLTRB l t r' b) op False (mCanvas s)
           \<and> mSaveStack s' = mSaveStack s"
  by (simp add: clipRect_def Let_def recordClip_result [OF assms])

lemma clipPath_result:
  assumes "currentSaveRec s = Inr r"
  shows "\<exists>e s'. clipPath isClipEmpty path op s = Inr (e, s')
           \<and> mClipStack s' =
               (if keeps_clips r
                then mClipStack s @
                       [case isRRect path of
                          Some roundRect \<Rightarrow> Clip_of_rrect roundRect op (sk_getTotalMatrix (mCanvas s))
                        | None \<Rightarrow> Clip_of_path path op (sk_getTotalMatrix (mCanvas s))]
                else mClipStack s)
           \<and> mCanvas s' =
               (case isRRect path of
                  Some roundRect \<Rightarrow> sk_clipRRect roundRect op False (mCanvas s)
                | None \<Rightarrow> sk_clipPath path op False (mCanvas s))
           \<and> mSaveStack s' = mSaveStack s"
  by (cases "isRRect path") (simp_all add: clipPath_def Let_def recordClip_result [OF assms])

lemma fresh_eval:
  "fresh = \<lparr>mCanvas = \<lparr>fDevice = SkBitmap False 100 100,
                        fMCRec = \<lparr>fMatrix = I, fClip = [], fLayer = None\<rparr>,
                        fMCStack = []\<rparr>,
            mSaveStack = None, mClipStack = [], mHighContrastText = False\<rparr>"
  by (simp add: fresh_def SkiaCanvas_new_def sk_new_def)

lemma matrix_frame_eval:
  "matrix_frame =
     \<lparr>mCanvas = \<lparr>fDevice = SkBitmap False 100 100,
                 fMCRec = \<lparr>fMatrix = translated, fClip = [], fLayer = None\<rparr>,
                 fMCStack = [\<lparr>fMatrix = I, fClip = [], fLayer = None\<rparr>]\<rparr>,
      mSaveStack = Some [\<lparr>saveCount = 2, saveFlags = Clip, clipIndex = 0\<rparr>],
      mClipStack = [], mHighContrastText = False\<rparr>"
  by (simp add: matrix_frame_def fresh_eval setMatrix_def save_def sk_save_def sk_setMatrix_def
      sk_getSaveCount_def recordPartialSave_def MatrixClip_def Matrix_def Clip_def)

lemma clip_frame_eval:
  "clip_frame =
     \<lparr>mCanvas = \<lparr>fDevice = SkBitmap False 100 100,
                 fMCRec = \<lparr>fMatrix = I,
                            fClip = [\<lparr>ce_shape = ClipRect (MakeLTRB 0 0 10 10), ce_op = kIntersect,
                                      ce_aa = False, ce_matrix = I\<rparr>],
                            fLayer = None\<rparr>,
                 fMCStack = [\<lparr>fMatrix = I, fClip = [], fLayer = None\<rparr>]\<rparr>,
      mSaveStack = Some [\<lparr>saveCount = 2, saveFlags = Matrix, clipIndex = 0\<rparr>],
      mClipStack = [Clip_of_rect (MakeLTRB 0 0 10 10) kIntersect I],
      mHighContrastText = False\<rparr>"
  by (simp add: clip_frame_def fresh_eval save_def sk_save_def
      sk_getSaveCount_def recordPartialSave_def MatrixClip_def Matrix_def Clip_def
      clipRect_def recordClip_def currentSaveRec_def sk_getTotalMatrix_def sk_clipRect_def
      sk_clip_def Let_def)

lemma applyPersistentClips_full:
  assumes idx: "i \<le> length (mClipStack s)" and cur: "currentSaveRec s = Inr r"
  shows "\<exists>s'. applyPersistentClips i s = Inr s'
           \<and> mCanvas s' = sk_setMatrix (sk_getTotalMatrix (mCanvas s))
                              (fold Clip_apply (drop i (mClipStack s)) (mCanvas s))
           \<and> sk_getTotalMatrix (mCanvas s') = sk_getTotalMatrix (mCanvas s)
           \<and> sk_getClip (mCanvas s') =
               sk_getClip (mCanvas s) @ map Clip_element (drop i (mClipStack s))
           \<and> mClipStack s' = (if keeps_clips r then mClipStack s else take i (mClipStack s))"
  using applyPersistentClips_result [OF idx cur] applyPersistentClips_canvas [of i s]
  by auto

lemma clip_frame_current:
  "currentSaveRec clip_frame = Inr (Some \<lparr>saveCount = 2, saveFlags = Matrix, clipIndex = 0\<rparr>)"
  by (simp add: clip_frame_eval currentSaveRec_def sk_getSaveCount_def)

lemma clip_frame_popped:
  "popped \<lparr>saveCount = 2, saveFlags = Matrix, clipIndex = 0\<rparr> clip_frame =
     fresh\<lparr>mSaveStack := Some [],
           mClipStack := [Clip_of_rect (MakeLTRB 0 0 10 10) kIntersect I]\<rparr>"
  by (simp add: clip_frame_eval fresh_eval popped_def Let_def sk_restore_def preserveMatrix_def
      Matrix_def)

section \<open>Facts for the save, clip, clip, restore sequence and for setBitmap\<close>

lemma sk_restore_clips_save:
  "sk_restore (sk_clip sh2 op2 aa2 (sk_clip sh1 op1 aa1 (snd (sk_save c)))) = c"
  by (simp add: sk_restore_def sk_clip_def sk_save_def)

lemma currentSaveRec_saveStack_cong:
  "saveStack s' = saveStack s \<Longrightarrow> sk_getSaveCount (mCanvas s') = sk_getSaveCount (mCanvas s)
     \<Longrightarrow> currentSaveRec s' = currentSaveRec s"
  by (auto simp: currentSaveRec_def saveStack_def Let_def split: option.splits list.splits)

lemma Clip_element_rect [simp]:
  "Clip_element (Clip_of_rect A op m) =
     \<lparr>ce_shape = ClipRect A, ce_op = op, ce_aa = False, ce_matrix = m\<rparr>"
  by (simp add: Clip_element_def Clip_of_rect_def MakeRect_def)



lemma sk_new_simps [simp]:
  "sk_getClip (sk_new bitmap) = []"
  "sk_getSaveCount (sk_new bitmap) = 1"
  "sk_getTotalMatrix (sk_new bitmap) = I"
  by (simp_all add: sk_new_def sk_getClip_def sk_getSaveCount_def sk_getTotalMatrix_def)

lemma reachable_clip_frame: "reachable clip_frame"
proof -
  have "reachable fresh"
    unfolding fresh_def by (rule r_new)
  then have 1: "reachable (snd (save Matrix fresh))"
    by (rule r_save)
  have "\<exists>e. clipRect never_empty 0 0 10 10 kIntersect (snd (save Matrix fresh))
               = Inr (e, clip_frame)"
    using stack_inv_clipRect [of "snd (save Matrix fresh)" never_empty 0 0 10 10 kIntersect]
      reachable_stack_inv [OF 1]
    by (auto simp: clip_frame_def)
  with 1 show ?thesis
    by (blast intro: r_clipRect)
qed

section \<open>Facts for restoreToCount\<close>

lemma stack_inv_clip_frame: "stack_inv clip_frame"
  by (rule reachable_stack_inv) (rule reachable_clip_frame)

lemma clip_frame_count: "sk_getSaveCount (mCanvas clip_frame) = 2"
  by (simp add: clip_frame_eval sk_getSaveCount_def)

lemma restoreToCount_below_bottom_diverges:
  assumes "n < 1" "stack_inv s"
  shows "restoreToCount n s = None"
proof (rule ccontr)
  assume "restoreToCount n s \<noteq> None"
  then obtain res where res: "restoreToCount n s = Some res"
    by blast
  have "n < 1 \<longrightarrow> stack_inv s \<longrightarrow> False"
  proof (rule restoreToCount.raw_induct
      [where P = "\<lambda>n s res. n < 1 \<longrightarrow> stack_inv s \<longrightarrow> False", OF _ res])
    fix f :: "int \<Rightarrow> SkiaCanvas \<Rightarrow> (error + SkiaCanvas) option" and n s res
    assume IH: "\<And>n s res. f n s = Some res \<Longrightarrow> n < 1 \<longrightarrow> stack_inv s \<longrightarrow> False"
      and eq: "(if n < sk_getSaveCount (mCanvas s)
                then case restore s of Inl e \<Rightarrow> Some (Inl e) | Inr s' \<Rightarrow> f n s'
                else Some (Inr s)) = Some res"
    show "n < 1 \<longrightarrow> stack_inv s \<longrightarrow> False"
    proof (intro impI)
      assume n: "n < 1" and inv: "stack_inv s"
      from n sk_getSaveCount_pos [of "mCanvas s"] have gt: "n < sk_getSaveCount (mCanvas s)"
        by linarith
      from restore_result [OF inv] obtain s1 where s1: "restore s = Inr s1" "stack_inv s1"
        by blast
      with gt eq have "f n s1 = Some res"
        by simp
      from IH [OF this] n s1(2) show False
        by blast
    qed
  qed
  with assms show False
    by blast
qed

section \<open>The claims\<close>

subsection \<open>C1: clips issued in a frame saved without the Clip flag\<close>

text \<open>
  C1, as the code has it. A save whose flag set lacks the Clip flag opens a frame that
  preserves the clip: the clips issued inside are logged and replayed after the backend
  restore. So from every state in which the save-count assertion holds, the sequence
  save (no Clip flag), \<^verbatim>\<open>clipRect(A)\<close>, \<^verbatim>\<open>clipRect(B)\<close>, \<^verbatim>\<open>restore()\<close> returns and
  leaves the backend's clip equal to the pre-save clip followed by A and by B, both under
  the transform in effect when they were issued; the transform and the save count are
  those from before the save.
\<close>

theorem clips_in_clip_preserving_frame_survive_restore:
  assumes noClip: "flags AND Clip = 0" and cur: "currentSaveRec s = Inr r0"
  shows "\<exists>s'. save_clip_clip_restore isClipEmpty flags A opA B opB s = Inr s'
           \<and> sk_getClip (mCanvas s') =
               sk_getClip (mCanvas s) @
                 [\<lparr>ce_shape = ClipRect A, ce_op = opA, ce_aa = False,
                   ce_matrix = sk_getTotalMatrix (mCanvas s)\<rparr>,
                  \<lparr>ce_shape = ClipRect B, ce_op = opB, ce_aa = False,
                   ce_matrix = sk_getTotalMatrix (mCanvas s)\<rparr>]
           \<and> sk_getTotalMatrix (mCanvas s') = sk_getTotalMatrix (mCanvas s)
           \<and> sk_getSaveCount (mCanvas s') = sk_getSaveCount (mCanvas s)"
proof -
  define M where "M = sk_getTotalMatrix (mCanvas s)"
  define rec where "rec = \<lparr>saveCount = sk_getSaveCount (mCanvas s) + 1,
                            saveFlags = flags AND MatrixClip,
                            clipIndex = length (mClipStack s)\<rparr>"
  define s1 where "s1 = s\<lparr>mCanvas := snd (sk_save (mCanvas s)),
                          mSaveStack := Some (rec # saveStack s)\<rparr>"
  have sv: "save flags s = (sk_getSaveCount (mCanvas s), s1)"
    using partial_if_no_Clip [OF noClip]
    by (simp add: save_unfold recordPartialSave_def Let_def s1_def rec_def saveStack_def)
  have keep: "keeps_clips (Some rec)"
    using noClip by (simp add: keeps_clips_def preserveClip_def rec_def masked_Clip)
  have cur1: "currentSaveRec s1 = Inr (Some rec)"
    by (simp add: currentSaveRec_def s1_def rec_def)
  from clipRect_result [OF cur1, of isClipEmpty "fLeft A" "fTop A" "fRight A" "fBottom A" opA]
  obtain e2 s2 where s2: "clipRect isClipEmpty (fLeft A) (fTop A) (fRight A) (fBottom A) opA s1
                            = Inr (e2, s2)"
    "mClipStack s2 = mClipStack s @ [Clip_of_rect A opA M]"
    "mCanvas s2 = sk_clip (ClipRect A) opA False (snd (sk_save (mCanvas s)))"
    "mSaveStack s2 = mSaveStack s1"
    using keep by (auto simp: s1_def M_def sk_clipRect_def)
  have cur2: "currentSaveRec s2 = Inr (Some rec)"
    using cur1 currentSaveRec_cong [of s2 s1] s2(3,4) by (simp add: s1_def)
  from clipRect_result [OF cur2, of isClipEmpty "fLeft B" "fTop B" "fRight B" "fBottom B" opB]
  obtain e3 s3 where s3: "clipRect isClipEmpty (fLeft B) (fTop B) (fRight B) (fBottom B) opB s2
                            = Inr (e3, s3)"
    "mClipStack s3 = mClipStack s @ [Clip_of_rect A opA M, Clip_of_rect B opB M]"
    "mCanvas s3 = sk_clip (ClipRect B) opB False
                    (sk_clip (ClipRect A) opA False (snd (sk_save (mCanvas s))))"
    "mSaveStack s3 = mSaveStack s1"
    using keep s2 by (auto simp: M_def sk_clipRect_def)
  have cur3: "currentSaveRec s3 = Inr (Some rec)"
    using cur1 currentSaveRec_cong [of s3 s1] s3(3,4) by (simp add: s1_def)
  have undone: "sk_restore (mCanvas s3) = mCanvas s"
    by (simp add: s3(3) sk_restore_clips_save)
  have m3: "sk_getTotalMatrix (mCanvas s3) = M"
    by (simp add: s3(3) M_def)
  have rs: "restore s3 = applyPersistentClips (length (mClipStack s)) (popped rec s3)"
    using keep by (simp add: restore_current [OF cur3] keeps_clips_def rec_def)
  have curp: "currentSaveRec (popped rec s3) = Inr r0"
  proof -
    have "currentSaveRec (popped rec s3) = currentSaveRec s"
      by (rule currentSaveRec_saveStack_cong)
         (simp_all add: saveStack_def s3(4) s1_def undone)
    with cur show ?thesis by simp
  qed
  have idx: "length (mClipStack s) \<le> length (mClipStack (popped rec s3))"
    by (simp add: s3(2))
  from applyPersistentClips_full [OF idx curp] obtain s4 where
    s4: "applyPersistentClips (length (mClipStack s)) (popped rec s3) = Inr s4"
      "mCanvas s4 = sk_setMatrix (sk_getTotalMatrix (mCanvas (popped rec s3)))
                      (fold Clip_apply (drop (length (mClipStack s)) (mClipStack (popped rec s3)))
                         (mCanvas (popped rec s3)))"
      "sk_getTotalMatrix (mCanvas s4) = sk_getTotalMatrix (mCanvas (popped rec s3))"
      "sk_getClip (mCanvas s4) =
         sk_getClip (mCanvas (popped rec s3)) @
           map Clip_element (drop (length (mClipStack s)) (mClipStack (popped rec s3)))"
    by blast
  have run: "save_clip_clip_restore isClipEmpty flags A opA B opB s = Inr s4"
    by (simp add: save_clip_clip_restore_def sv s2(1) s3(1) rs s4(1))
  have clip: "sk_getClip (mCanvas s4) =
      sk_getClip (mCanvas s) @
        [\<lparr>ce_shape = ClipRect A, ce_op = opA, ce_aa = False, ce_matrix = M\<rparr>,
         \<lparr>ce_shape = ClipRect B, ce_op = opB, ce_aa = False, ce_matrix = M\<rparr>]"
    by (simp add: s4(4) s3(2) undone)
  have mat: "sk_getTotalMatrix (mCanvas s4) = M"
    by (simp add: s4(3) m3 undone M_def)
  have cnt: "sk_getSaveCount (mCanvas s4) = sk_getSaveCount (mCanvas s)"
    by (simp add: s4(2) undone)
  from run clip mat cnt show ?thesis
    by (simp add: M_def)
qed

text \<open>
  C1 as the code has it, on the fresh canvas with the flag set Matrix and two
  intersecting rectangles.
\<close>

theorem clips_in_clip_preserving_frame_survive_restore_witness:
  "Matrix AND Clip = 0
   \<and> currentSaveRec fresh = Inr None
   \<and> (\<exists>s'. save_clip_clip_restore never_empty Matrix
               (MakeLTRB 0 0 10 10) kIntersect (MakeLTRB 5 5 20 20) kIntersect fresh = Inr s'
        \<and> sk_getClip (mCanvas s') =
            [\<lparr>ce_shape = ClipRect (MakeLTRB 0 0 10 10), ce_op = kIntersect, ce_aa = False,
              ce_matrix = I\<rparr>,
             \<lparr>ce_shape = ClipRect (MakeLTRB 5 5 20 20), ce_op = kIntersect, ce_aa = False,
              ce_matrix = I\<rparr>])"
proof -
  have f: "Matrix AND Clip = 0"
    by (simp add: Matrix_def Clip_def)
  have c: "currentSaveRec fresh = Inr None"
    by (simp add: fresh_eval currentSaveRec_def)
  from clips_in_clip_preserving_frame_survive_restore [OF f c,
      of never_empty "MakeLTRB 0 0 10 10" kIntersect "MakeLTRB 5 5 20 20" kIntersect]
  show ?thesis
    using f c by (auto simp add: fresh_eval sk_getClip_def sk_getTotalMatrix_def)
qed

text \<open>
  C1 as stated says that after the sequence the backend's clip equals the pre-save clip,
  A and B being no longer in effect. On the fresh canvas, whose clip is empty of
  operations, the sequence with the flag set Matrix (no Clip flag) ends with both
  rectangles in the backend's clip.
\<close>

theorem clips_discarded_after_restore_counterexample:
  "Matrix AND Clip = 0
   \<and> sk_getClip (mCanvas fresh) = []
   \<and> map_sum id (sk_getClip \<circ> mCanvas)
        (save_clip_clip_restore never_empty Matrix
           (MakeLTRB 0 0 10 10) kIntersect (MakeLTRB 5 5 20 20) kIntersect fresh)
       = Inr [\<lparr>ce_shape = ClipRect (MakeLTRB 0 0 10 10), ce_op = kIntersect, ce_aa = False,
               ce_matrix = I\<rparr>,
              \<lparr>ce_shape = ClipRect (MakeLTRB 5 5 20 20), ce_op = kIntersect, ce_aa = False,
               ce_matrix = I\<rparr>]
   \<and> map_sum id (sk_getClip \<circ> mCanvas)
        (save_clip_clip_restore never_empty Matrix
           (MakeLTRB 0 0 10 10) kIntersect (MakeLTRB 5 5 20 20) kIntersect fresh)
       \<noteq> Inr (sk_getClip (mCanvas fresh))"
  by (simp add: fresh_eval save_clip_clip_restore_def save_def sk_save_def
      sk_getSaveCount_def recordPartialSave_def MatrixClip_def Matrix_def Clip_def
      clipRect_def recordClip_def currentSaveRec_def sk_getTotalMatrix_def sk_clipRect_def
      sk_clip_def Let_def restore_def sk_restore_def preserveMatrix_def preserveClip_def
      applyPersistentClips_def Clip_apply_def Clip_of_rect_def MakeRect_def sk_setMatrix_def
      sk_getClip_def)

subsection \<open>C2: setBitmap\<close>




subsection \<open>C3: which clip calls are logged\<close>

text \<open>
  C3, as the code has it. When the save-count assertion holds, a clip call
  (\<^verbatim>\<open>clipRect\<close>, \<^verbatim>\<open>clipPath\<close>) returns, and it appends a new entry (the shape, the
  operator and the backend's current total transform) to the clip log if and only if a
  current save record exists and preserves the clip, that is, lacks the Clip flag.
  Otherwise the log is unchanged. A path that is a rounded rectangle is logged as such.
\<close>

theorem clip_call_logs_when_clip_is_preserved:
  assumes "currentSaveRec s = Inr rec"
  shows "(\<exists>e s'. clipRect isClipEmpty l t r b op s = Inr (e, s')
            \<and> mClipStack s' =
                (if keeps_clips rec
                 then mClipStack s @
                        [Clip_of_rect (MakeLTRB l t r b) op (sk_getTotalMatrix (mCanvas s))]
                 else mClipStack s))
       \<and> (\<exists>e s'. clipPath isClipEmpty path op s = Inr (e, s')
            \<and> mClipStack s' =
                (if keeps_clips rec
                 then mClipStack s @
                        [case isRRect path of
                           Some roundRect \<Rightarrow>
                             Clip_of_rrect roundRect op (sk_getTotalMatrix (mCanvas s))
                         | None \<Rightarrow> Clip_of_path path op (sk_getTotalMatrix (mCanvas s))]
                 else mClipStack s))"
  using clipRect_result [OF assms, of isClipEmpty l t r b op]
    clipPath_result [OF assms, of isClipEmpty path op]
  by blast

text \<open>C3 as the code has it, for a second clip inside the clip-preserving frame.\<close>

theorem clip_call_logs_when_clip_is_preserved_witness:
  "currentSaveRec clip_frame = Inr (Some \<lparr>saveCount = 2, saveFlags = Matrix, clipIndex = 0\<rparr>)
   \<and> keeps_clips (Some \<lparr>saveCount = 2, saveFlags = Matrix, clipIndex = 0\<rparr>)
   \<and> (\<exists>e s'. clipRect never_empty 1 2 3 4 kDifference clip_frame = Inr (e, s')
        \<and> mClipStack s' = [Clip_of_rect (MakeLTRB 0 0 10 10) kIntersect I,
                            Clip_of_rect (MakeLTRB 1 2 3 4) kDifference I])"
proof -
  have cur: "currentSaveRec clip_frame =
               Inr (Some \<lparr>saveCount = 2, saveFlags = Matrix, clipIndex = 0\<rparr>)"
    by (simp add: clip_frame_eval currentSaveRec_def sk_getSaveCount_def)
  have keep: "keeps_clips (Some \<lparr>saveCount = 2, saveFlags = Matrix, clipIndex = 0\<rparr>)"
    by (simp add: keeps_clips_def preserveClip_def Matrix_def Clip_def)
  from clip_call_logs_when_clip_is_preserved [OF cur, of never_empty 1 2 3 4 kDifference]
  show ?thesis
    using cur keep by (simp add: clip_frame_eval sk_getTotalMatrix_def)
qed

text \<open>
  C3 as stated says that the entry is appended exactly when a current record exists whose
  \<open>preserveClip\<close> is false. In the frame saved with the flag set Clip the record is
  current and does not preserve the clip, and \<^verbatim>\<open>clipRect\<close> leaves the log empty.
\<close>

theorem clip_call_logs_iff_not_preserved_counterexample:
  "currentSaveRec matrix_frame = Inr (Some \<lparr>saveCount = 2, saveFlags = Clip, clipIndex = 0\<rparr>)
   \<and> \<not> preserveClip \<lparr>saveCount = 2, saveFlags = Clip, clipIndex = 0\<rparr>
   \<and> mClipStack matrix_frame = []
   \<and> map_sum id (mClipStack \<circ> snd) (clipRect never_empty 0 0 10 10 kIntersect matrix_frame)
       = Inr []"
  by (simp add: matrix_frame_eval currentSaveRec_def sk_getSaveCount_def preserveClip_def
      Clip_def clipRect_def recordClip_def Let_def)

subsection \<open>C4: erasing the replayed range\<close>

text \<open>
  C4. When clip replay is entered with a start index within the log and the save-count
  assertion holds, it returns, and the log afterwards is the log without the replayed
  range from the start index to its end, unless the record that is current after the pop
  preserves the clip, in which case the log is unchanged.
\<close>

theorem replayed_range_erased_unless_kept:
  assumes "clipStartIndex \<le> length (mClipStack s)" and "currentSaveRec s = Inr rec"
  shows "\<exists>s'. applyPersistentClips clipStartIndex s = Inr s'
           \<and> mClipStack s' =
               (if keeps_clips rec then mClipStack s else take clipStartIndex (mClipStack s))"
  using applyPersistentClips_full [OF assms] by blast

text \<open>
  C4 on the clip-preserving frame (the range stays) and on the state that
  \<^verbatim>\<open>restore\<close> passes to the replay after popping that frame's record (the range goes).
\<close>

theorem replayed_range_erased_unless_kept_witness:
  "(0::nat) \<le> length (mClipStack clip_frame)
   \<and> currentSaveRec clip_frame = Inr (Some \<lparr>saveCount = 2, saveFlags = Matrix, clipIndex = 0\<rparr>)
   \<and> (\<exists>s'. applyPersistentClips 0 clip_frame = Inr s' \<and> mClipStack s' = mClipStack clip_frame)
   \<and> currentSaveRec (popped \<lparr>saveCount = 2, saveFlags = Matrix, clipIndex = 0\<rparr> clip_frame)
       = Inr None
   \<and> (\<exists>s'. applyPersistentClips 0
               (popped \<lparr>saveCount = 2, saveFlags = Matrix, clipIndex = 0\<rparr> clip_frame) = Inr s'
          \<and> mClipStack s' = [])"
proof -
  let ?p = "popped \<lparr>saveCount = 2, saveFlags = Matrix, clipIndex = 0\<rparr> clip_frame"
  have i1: "(0::nat) \<le> length (mClipStack clip_frame)" and i2: "(0::nat) \<le> length (mClipStack ?p)"
    by simp_all
  have c2: "currentSaveRec ?p = Inr None"
    by (simp add: clip_frame_popped currentSaveRec_def)
  have k: "keeps_clips (Some \<lparr>saveCount = 2, saveFlags = Matrix, clipIndex = 0\<rparr>)"
    by (simp add: keeps_clips_def preserveClip_def Matrix_def Clip_def)
  from replayed_range_erased_unless_kept [OF i1 clip_frame_current]
    replayed_range_erased_unless_kept [OF i2 c2]
  show ?thesis
    using clip_frame_current c2 k by (simp add: keeps_clips_def)
qed

subsection \<open>C5: restore of a matrix-preserving frame\<close>

text \<open>
  C5. For every \<^verbatim>\<open>restore()\<close> call in which the top save record is current (its save
  count is the backend's) and preserves the matrix: when the call returns, the backend's
  total transform equals the one in effect before the call, whatever the backend's own
  restore brought back, and that record is popped. In every state that satisfies the
  bookkeeping invariant the call does return.
\<close>

theorem restore_reinstalls_preserved_matrix:
  assumes "currentSaveRec s = Inr (Some rec)" and "preserveMatrix rec"
  shows "(\<forall>s'. restore s = Inr s' \<longrightarrow>
            sk_getTotalMatrix (mCanvas s') = sk_getTotalMatrix (mCanvas s)
            \<and> saveStack s = rec # saveStack s')
       \<and> (stack_inv s \<longrightarrow> (\<exists>s'. restore s = Inr s'))"
proof (intro conjI allI impI)
  from currentSaveRec_Some [OF assms(1)] obtain rest where
    st: "mSaveStack s = Some (rec # rest)" by blast
  fix s'
  assume r: "restore s = Inr s'"
  show "sk_getTotalMatrix (mCanvas s') = sk_getTotalMatrix (mCanvas s)"
  proof (cases "preserveClip rec")
    case True
    with r have "applyPersistentClips (clipIndex rec) (popped rec s) = Inr s'"
      by (simp add: restore_current [OF assms(1)])
    from applyPersistentClips_frame(1) [OF this] assms(2) show ?thesis
      by simp
  next
    case False
    with r have "s' = popped rec s"
      by (simp add: restore_current [OF assms(1)])
    with assms(2) show ?thesis
      by simp
  qed
  show "saveStack s = rec # saveStack s'"
  proof (cases "preserveClip rec")
    case True
    with r have "applyPersistentClips (clipIndex rec) (popped rec s) = Inr s'"
      by (simp add: restore_current [OF assms(1)])
    from applyPersistentClips_frame(2) [OF this] st show ?thesis
      by (simp add: saveStack_def)
  next
    case False
    with r have "s' = popped rec s"
      by (simp add: restore_current [OF assms(1)])
    with st show ?thesis
      by (simp add: saveStack_def)
  qed
next
  assume "stack_inv s"
  from restore_result [OF this] show "\<exists>s'. restore s = Inr s'"
    by blast
qed

text \<open>
  C5 on the matrix-preserving frame: the backend's own restore would bring the identity
  back, the engine's restore keeps the translation.
\<close>

theorem restore_reinstalls_preserved_matrix_witness:
  "stack_inv matrix_frame
   \<and> currentSaveRec matrix_frame = Inr (Some \<lparr>saveCount = 2, saveFlags = Clip, clipIndex = 0\<rparr>)
   \<and> preserveMatrix \<lparr>saveCount = 2, saveFlags = Clip, clipIndex = 0\<rparr>
   \<and> sk_getTotalMatrix (sk_restore (mCanvas matrix_frame)) = I
   \<and> (\<exists>s'. restore matrix_frame = Inr s'
        \<and> sk_getTotalMatrix (mCanvas s') = translated
        \<and> saveStack s' = [])"
proof -
  have inv: "stack_inv matrix_frame"
    by (simp add: matrix_frame_eval stack_inv_def saveStack_def sk_getSaveCount_def)
  have cur: "currentSaveRec matrix_frame =
               Inr (Some \<lparr>saveCount = 2, saveFlags = Clip, clipIndex = 0\<rparr>)"
    by (simp add: matrix_frame_eval currentSaveRec_def sk_getSaveCount_def)
  have pm: "preserveMatrix \<lparr>saveCount = 2, saveFlags = Clip, clipIndex = 0\<rparr>"
    by (simp add: preserveMatrix_def Matrix_def Clip_def)
  have r: "sk_getTotalMatrix (sk_restore (mCanvas matrix_frame)) = I"
    by (simp add: matrix_frame_eval sk_restore_def sk_getTotalMatrix_def)
  have m: "sk_getTotalMatrix (mCanvas matrix_frame) = translated"
    "saveStack matrix_frame = [\<lparr>saveCount = 2, saveFlags = Clip, clipIndex = 0\<rparr>]"
    by (simp_all add: matrix_frame_eval sk_getTotalMatrix_def saveStack_def)
  from restore_reinstalls_preserved_matrix [OF cur pm]
  show ?thesis
    using inv cur pm r m by auto
qed

subsection \<open>C6: clip replay\<close>

text \<open>
  C6. Clip replay applies every logged entry from the start index to the end of the log:
  for each it installs the entry's frozen transform with \<^verbatim>\<open>setMatrix\<close> and then issues
  the clip primitive of its shape and operator, so that the backend's clip grows by these
  entries, each under its frozen transform. After the loop the backend's total transform
  is the one from before the replay, however many entries were replayed.
\<close>

theorem replay_applies_frozen_transforms:
  assumes "clipStartIndex \<le> length (mClipStack s)" and "currentSaveRec s = Inr rec"
  shows "\<exists>s'. applyPersistentClips clipStartIndex s = Inr s'
           \<and> mCanvas s' =
               sk_setMatrix (sk_getTotalMatrix (mCanvas s))
                 (fold (\<lambda>cl c. sk_clip (ce_shape (Clip_element cl)) (mOp cl) False
                                 (sk_setMatrix (mMatrix cl) c))
                    (drop clipStartIndex (mClipStack s)) (mCanvas s))
           \<and> sk_getClip (mCanvas s') =
               sk_getClip (mCanvas s) @ map Clip_element (drop clipStartIndex (mClipStack s))
           \<and> sk_getTotalMatrix (mCanvas s') = sk_getTotalMatrix (mCanvas s)"
proof -
  have "Clip_apply = (\<lambda>cl c. sk_clip (ce_shape (Clip_element cl)) (mOp cl) False
                               (sk_setMatrix (mMatrix cl) c))"
    by (intro ext) (rule Clip_apply_eq)
  with applyPersistentClips_full [OF assms] show ?thesis
    by auto
qed

text \<open>
  C6 on the clip-preserving frame after a translation: the logged rectangle is replayed
  under the identity it was logged with, and the translation is in effect afterwards.
\<close>

theorem replay_applies_frozen_transforms_witness:
  "(0::nat) \<le> length (mClipStack (setMatrix translated clip_frame))
   \<and> currentSaveRec (setMatrix translated clip_frame)
       = Inr (Some \<lparr>saveCount = 2, saveFlags = Matrix, clipIndex = 0\<rparr>)
   \<and> (\<exists>s'. applyPersistentClips 0 (setMatrix translated clip_frame) = Inr s'
        \<and> sk_getClip (mCanvas s') =
            [\<lparr>ce_shape = ClipRect (MakeLTRB 0 0 10 10), ce_op = kIntersect,
              ce_aa = False, ce_matrix = I\<rparr>,
             \<lparr>ce_shape = ClipRect (MakeLTRB 0 0 10 10), ce_op = kIntersect,
              ce_aa = False, ce_matrix = I\<rparr>]
        \<and> sk_getTotalMatrix (mCanvas s') = translated)"
proof -
  let ?s = "setMatrix translated clip_frame"
  have i: "(0::nat) \<le> length (mClipStack ?s)"
    by simp
  have c: "currentSaveRec ?s = Inr (Some \<lparr>saveCount = 2, saveFlags = Matrix, clipIndex = 0\<rparr>)"
    by (simp add: clip_frame_eval setMatrix_def sk_setMatrix_def currentSaveRec_def
        sk_getSaveCount_def)
  from replay_applies_frozen_transforms [OF i c]
  show ?thesis
    using c
    by (auto simp add: clip_frame_eval setMatrix_def sk_setMatrix_def sk_getClip_def
        sk_getTotalMatrix_def Clip_element_def Clip_of_rect_def MakeRect_def)
qed

subsection \<open>C7: save\<close>

text \<open>
  C7. For every flag set, \<^verbatim>\<open>save(flags)\<close> issues exactly one backend save and returns
  what the backend reported. It pushes a new save record, holding the backend's save count
  after the save, the flags masked to the Matrix and Clip bits (from which the two
  preserve booleans are read) and the current length of the clip log, if and only if the
  masked flags are not the full Matrix-plus-Clip set, that is, if and only if at least
  one of the two flags is absent. There is no failure result.
\<close>

theorem save_records_partial_saves:
  "(let canvas = snd (sk_save (mCanvas s));
        rec = \<lparr>saveCount = sk_getSaveCount canvas,
                 saveFlags = flags AND MatrixClip,
                 clipIndex = length (mClipStack s)\<rparr>
    in save flags s =
         (fst (sk_save (mCanvas s)),
          if flags AND MatrixClip \<noteq> MatrixClip
          then s\<lparr>mCanvas := canvas, mSaveStack := Some (rec # saveStack s)\<rparr>
          else s\<lparr>mCanvas := canvas\<rparr>)
       \<and> sk_getSaveCount canvas = sk_getSaveCount (mCanvas s) + 1
       \<and> preserveMatrix rec = (flags AND Matrix = 0)
       \<and> preserveClip rec = (flags AND Clip = 0)
       \<and> (flags AND MatrixClip \<noteq> MatrixClip) = (flags AND Matrix = 0 \<or> flags AND Clip = 0))"
proof -
  have "save flags s =
     (fst (sk_save (mCanvas s)),
      if flags AND MatrixClip \<noteq> MatrixClip
      then s\<lparr>mCanvas := snd (sk_save (mCanvas s)),
             mSaveStack := Some (\<lparr>saveCount = sk_getSaveCount (snd (sk_save (mCanvas s))),
                                   saveFlags = flags AND MatrixClip,
                                   clipIndex = length (mClipStack s)\<rparr> # saveStack s)\<rparr>
      else s\<lparr>mCanvas := snd (sk_save (mCanvas s))\<rparr>)"
    by (simp add: save_unfold recordPartialSave_def Let_def saveStack_def)
  then show ?thesis
    using not_partial_iff [of flags]
    by (simp add: Let_def preserveMatrix_def preserveClip_def masked_Matrix masked_Clip)
qed

text \<open>
  C7 on the fresh canvas: a save with the Matrix flag alone pushes a record that preserves
  the clip, a save with both flags pushes none, and both report the save count 1.
\<close>

theorem save_records_partial_saves_witness:
  "save Matrix fresh =
     (1, fresh\<lparr>mCanvas := snd (sk_save (mCanvas fresh)),
               mSaveStack := Some [\<lparr>saveCount = 2, saveFlags = Matrix, clipIndex = 0\<rparr>]\<rparr>)
   \<and> save MatrixClip fresh = (1, fresh\<lparr>mCanvas := snd (sk_save (mCanvas fresh))\<rparr>)"
  using save_records_partial_saves [of fresh Matrix]
    save_records_partial_saves [of fresh MatrixClip]
  by (simp add: Let_def fresh_def SkiaCanvas_new_def sk_new_def sk_save_def sk_getSaveCount_def
      saveStack_def MatrixClip_def Matrix_def Clip_def)

subsection \<open>C8: restoreToCount\<close>

text \<open>
  C8. \<^verbatim>\<open>restoreToCount(n)\<close> performs a restore only while the backend's save count is
  strictly greater than \<open>n\<close>: when the save count is \<open>n\<close> or below it returns at once
  with the state unchanged, and otherwise it restores once and goes on. From a state
  that satisfies the bookkeeping invariant it never ends in an error, and for a target
  of at least 1 it returns with the save count at the smaller of \<open>n\<close> and the count it
  started from.
\<close>

theorem restoreToCount_restores_while_above:
  "(if sk_getSaveCount (mCanvas s) \<le> n
    then restoreToCount n s = Some (Inr s)
    else restoreToCount n s =
           (case restore s of Inl e \<Rightarrow> Some (Inl e) | Inr s' \<Rightarrow> restoreToCount n s'))
   \<and> (stack_inv s \<longrightarrow>
        restoreToCount n s \<noteq> Some (Inl AssertFailed)
        \<and> (1 \<le> n \<longrightarrow>
             (\<exists>s'. restoreToCount n s = Some (Inr s')
                \<and> sk_getSaveCount (mCanvas s') = min n (sk_getSaveCount (mCanvas s)))))"
proof -
  have loop: "if sk_getSaveCount (mCanvas s) \<le> n
    then restoreToCount n s = Some (Inr s)
    else restoreToCount n s =
           (case restore s of Inl e \<Rightarrow> Some (Inl e) | Inr s' \<Rightarrow> restoreToCount n s')"
    by (subst (1 2) restoreToCount.simps) simp
  have noerr: "restoreToCount n s \<noteq> Some (Inl AssertFailed)" if "stack_inv s"
    using restoreToCount_inv [of n s "Inl AssertFailed"] that by auto
  have ret: "\<exists>s'. restoreToCount n s = Some (Inr s')
                \<and> sk_getSaveCount (mCanvas s') = min n (sk_getSaveCount (mCanvas s))"
    if "stack_inv s" "1 \<le> n"
    using restoreToCount_returns [OF that] by blast
  from loop noerr ret show ?thesis
    by blast
qed

text \<open>C8 on the clip-preserving frame, whose save count is 2, for the targets 3, 2 and 1.\<close>

theorem restoreToCount_restores_while_above_witness:
  "stack_inv clip_frame \<and> (1::int) \<le> 1
   \<and> sk_getSaveCount (mCanvas clip_frame) = 2
   \<and> restoreToCount 2 clip_frame = Some (Inr clip_frame)
   \<and> restoreToCount 3 clip_frame = Some (Inr clip_frame)
   \<and> restoreToCount 1 clip_frame \<noteq> Some (Inl AssertFailed)
   \<and> (\<exists>s'. restoreToCount 1 clip_frame = Some (Inr s') \<and> sk_getSaveCount (mCanvas s') = 1)"
proof -
  have le: "(1::int) \<le> 1"
    by simp
  have "restoreToCount 2 clip_frame = Some (Inr clip_frame)"
    "restoreToCount 3 clip_frame = Some (Inr clip_frame)"
    using restoreToCount_restores_while_above [of clip_frame 2]
      restoreToCount_restores_while_above [of clip_frame 3]
    by (simp_all add: clip_frame_count)
  moreover have "restoreToCount 1 clip_frame \<noteq> Some (Inl AssertFailed)
    \<and> (\<exists>s'. restoreToCount 1 clip_frame = Some (Inr s')
          \<and> sk_getSaveCount (mCanvas s') = min 1 (sk_getSaveCount (mCanvas clip_frame)))"
    using restoreToCount_restores_while_above [of clip_frame 1] stack_inv_clip_frame le
    by blast
  ultimately show ?thesis
    using stack_inv_clip_frame by (simp add: clip_frame_count)
qed

subsection \<open>C9: the assertions\<close>

text \<open>
  C9. In every state reachable through the engine's operations no save record stores a
  save count above the backend's save count or a log index beyond the end of the clip
  log. So neither fatal assertion can fail: \<^verbatim>\<open>currentSaveRec\<close>, \<^verbatim>\<open>restore\<close> (the
  only caller of the clip replay), \<^verbatim>\<open>restoreToCount\<close> and the clip calls never end in
  a failed assertion.
\<close>

theorem assertions_unreachable:
  assumes "reachable s"
  shows "list_all (\<lambda>rec. saveCount rec \<le> sk_getSaveCount (mCanvas s)
                         \<and> clipIndex rec \<le> length (mClipStack s)) (saveStack s)
       \<and> (\<exists>rec. currentSaveRec s = Inr rec)
       \<and> (\<exists>s'. restore s = Inr s')
       \<and> (\<forall>n. restoreToCount n s \<noteq> Some (Inl AssertFailed))
       \<and> (\<forall>isClipEmpty l t r b op. \<exists>e s'. clipRect isClipEmpty l t r b op s = Inr (e, s'))
       \<and> (\<forall>isClipEmpty path op. \<exists>e s'. clipPath isClipEmpty path op s = Inr (e, s'))"
proof -
  from assms have inv: "stack_inv s"
    by (rule reachable_stack_inv)
  then have "list_all (\<lambda>rec. saveCount rec \<le> sk_getSaveCount (mCanvas s)
                         \<and> clipIndex rec \<le> length (mClipStack s)) (saveStack s)"
    by (simp add: stack_inv_def)
  moreover have "\<exists>rec. currentSaveRec s = Inr rec"
    using inv by (rule currentSaveRec_ok)
  moreover have "\<exists>s'. restore s = Inr s'"
    using restore_result [OF inv] by blast
  moreover have "restoreToCount n s \<noteq> Some (Inl AssertFailed)" for n
    using restoreToCount_inv [of n s "Inl AssertFailed"] inv by auto
  moreover have "\<exists>e s'. clipRect isClipEmpty l t r b op s = Inr (e, s')" for isClipEmpty l t r b op
    using stack_inv_clipRect [OF inv] by blast
  moreover have "\<exists>e s'. clipPath isClipEmpty path op s = Inr (e, s')" for isClipEmpty path op
    using stack_inv_clipPath [OF inv] by blast
  ultimately show ?thesis
    by blast
qed

text \<open>C9 on the clip-preserving frame.\<close>

theorem assertions_unreachable_witness:
  "reachable clip_frame
   \<and> saveStack clip_frame = [\<lparr>saveCount = 2, saveFlags = Matrix, clipIndex = 0\<rparr>]
   \<and> sk_getSaveCount (mCanvas clip_frame) = 2
   \<and> (\<exists>s'. restore clip_frame = Inr s')
   \<and> restoreToCount 1 clip_frame \<noteq> Some (Inl AssertFailed)"
  using assertions_unreachable [OF reachable_clip_frame] reachable_clip_frame clip_frame_count
  by (simp add: clip_frame_eval saveStack_def)

subsection \<open>C10: saveLayerAlpha\<close>

text \<open>
  C10. \<^verbatim>\<open>saveLayerAlpha\<close> compares the alpha argument after the cast to unsigned. For
  every negative alpha and every alpha of 255 or more it delegates to \<^verbatim>\<open>saveLayer\<close>
  with a null paint; a paint that carries only the alpha is made exactly when
  \<open>0 \<le> alpha < 255\<close>.
\<close>

theorem saveLayerAlpha_compares_unsigned:
  "saveLayerAlpha l t r b alpha flags s =
     saveLayer l t r b
       (if 0 \<le> sint alpha \<and> sint alpha < 255 then Some (SkPaint (nat (sint alpha))) else None)
       flags s"
proof (cases "unat alpha < 255")
  case True
  then have rng: "0 \<le> sint alpha \<and> sint alpha < 255"
    by (simp add: unat_lt_255_iff_sint(1))
  then have "int (unat alpha) = sint alpha"
    using unat_lt_255_iff_sint(2) [of alpha] by blast
  then have "nat (sint alpha) = unat alpha"
    by linarith
  with True rng show ?thesis
    by (simp add: saveLayerAlpha_def setAlpha_def)
next
  case False
  then have "\<not> (0 \<le> sint alpha \<and> sint alpha < 255)"
    by (simp add: unat_lt_255_iff_sint(1))
  with False show ?thesis
    by (auto simp add: saveLayerAlpha_def)
qed


text \<open>C10 at the alpha values -1, 300 and 128.\<close>

theorem saveLayerAlpha_compares_unsigned_witness:
  "saveLayerAlpha 0 0 10 10 (- 1) 0 fresh = saveLayer 0 0 10 10 None 0 fresh
   \<and> saveLayerAlpha 0 0 10 10 300 0 fresh = saveLayer 0 0 10 10 None 0 fresh
   \<and> saveLayerAlpha 0 0 10 10 128 0 fresh = saveLayer 0 0 10 10 (Some (SkPaint 128)) 0 fresh"
  using saveLayerAlpha_compares_unsigned [of 0 0 10 10 "- 1" 0 fresh]
    saveLayerAlpha_compares_unsigned [of 0 0 10 10 300 0 fresh]
    saveLayerAlpha_compares_unsigned [of 0 0 10 10 128 0 fresh]
  by simp

end
